theory Spec2Isabelle
  imports Complex_Main
begin

section \<open>Clock and calendar dates\<close>

text \<open>
  The scripts read the clock with \<^verbatim>\<open>Date.now()\<close> (milliseconds since the epoch) and turn an
  instant into a calendar date with \<^verbatim>\<open>toDateString()\<close>, which works in the local time zone
  of the browser. ECMAScript defines the local time of an instant \<open>t\<close> as \<open>t + LocalTZA(t)\<close>
  and its day as the quotient by the 86400000 milliseconds of a day. A zone is the function
  \<open>LocalTZA\<close>; the date string is represented by the local day number, which determines
  the string (weekday, month, day and year) and is determined by it.
  Instants, day numbers and the counters of the two engines are integers: below \<open>2^53\<close>
  the doubles of the source hold them exactly.
\<close>

type_synonym zone = "int \<Rightarrow> int"

definition msPerDay :: int where
  "msPerDay = 86400000"

definition toDateString :: "zone \<Rightarrow> int \<Rightarrow> int" where
  "toDateString tz t = (t + tz t) div msPerDay"

text \<open>\<^verbatim>\<open>toLocaleDateString('en-US', {weekday: 'short'})\<close>: day 0 of the epoch was a Thursday.\<close>

definition weekdayShort :: "zone \<Rightarrow> int \<Rightarrow> string" where
  "weekdayShort tz t =
     [''Sun'', ''Mon'', ''Tue'', ''Wed'', ''Thu'', ''Fri'', ''Sat'']
       ! nat ((toDateString tz t + 4) mod 7)"

text \<open>Two zones: one without clock changes, and one whose clocks go back one hour at
  2026-10-25T01:00Z (offset one hour before that instant, none after it).\<close>

definition utc :: zone where
  "utc t = 0"

definition fallBackZone :: zone where
  "fallBackZone t = (if t < 1792890000000 then 3600000 else 0)"

section \<open>JavaScript numbers\<close>

text \<open>
  A quotient or a product of two numbers is a double in the source: the exact result
  rounded to the nearest number with a 53-bit significand, a tie going to the even
  significand. \<open>fl\<close> is that rounding, for magnitudes between \<open>2^-1022\<close> and \<open>2^1024\<close>,
  where the quantities rounded here lie (a quotient of two counters, a confidence of at
  least 0.75 times 100, a percentage over 100). A double is the real number it denotes;
  the double a decimal literal such as \<^verbatim>\<open>0.9\<close> denotes is \<open>fl 0.9\<close>. \<open>expo x\<close> is the binary
  exponent of a positive \<open>x\<close>, found by halving or doubling until the value lies between
  1 and 2. \<^verbatim>\<open>Math.round\<close> is exact on a double: the nearest integer, a half going up.
\<close>

definition rne :: "real \<Rightarrow> int" where
  "rne x =
     (let f = \<lfloor>x\<rfloor>; d = x - of_int f
      in if d < 1/2 then f else if 1/2 < d then f + 1 else if even f then f else f + 1)"

function expUp :: "real \<Rightarrow> nat" where
  "expUp x = (if 2 \<le> x then Suc (expUp (x / 2)) else 0)"
  by pat_completeness auto
termination
proof (relation "measure (\<lambda>x. nat \<lfloor>x\<rfloor>)")
  show "wf (measure (\<lambda>x::real. nat \<lfloor>x\<rfloor>))" by simp
next
  fix x :: real
  assume x: "2 \<le> x"
  have "x - 1 < of_int \<lfloor>x\<rfloor>" by linarith
  with x have "x / 2 < of_int \<lfloor>x\<rfloor>" by linarith
  then have "\<lfloor>x / 2\<rfloor> < \<lfloor>x\<rfloor>" by (simp only: floor_less_iff)
  moreover have "0 < \<lfloor>x\<rfloor>" using x by simp
  ultimately show "(x / 2, x) \<in> measure (\<lambda>x. nat \<lfloor>x\<rfloor>)" by simp
qed

function expDown :: "real \<Rightarrow> nat" where
  "expDown x = (if 0 < x \<and> x < 1 then Suc (expDown (2 * x)) else 0)"
  by pat_completeness auto
termination
proof (relation "measure (\<lambda>x. nat \<lfloor>1 / x\<rfloor>)")
  show "wf (measure (\<lambda>x::real. nat \<lfloor>1 / x\<rfloor>))" by simp
next
  fix x :: real
  assume x: "0 < x \<and> x < 1"
  define a where "a = 1 / x"
  have a: "1 < a" using x by (simp add: a_def)
  then have f: "1 \<le> \<lfloor>a\<rfloor>" by simp
  then have f': "1 \<le> real_of_int \<lfloor>a\<rfloor>" by linarith
  have "a - 1 < of_int \<lfloor>a\<rfloor>" by linarith
  with f' have "a / 2 < of_int \<lfloor>a\<rfloor>" by linarith
  then have "\<lfloor>a / 2\<rfloor> < \<lfloor>a\<rfloor>" by (simp only: floor_less_iff)
  moreover have "1 / (2 * x) = a / 2" by (simp add: a_def)
  ultimately have "\<lfloor>1 / (2 * x)\<rfloor> < \<lfloor>a\<rfloor>" by (simp only:)
  with f show "(2 * x, x) \<in> measure (\<lambda>x. nat \<lfloor>1 / x\<rfloor>)"
    unfolding a_def by (simp add: mult.commute)
qed

declare expUp.simps [simp del] expDown.simps [simp del]

definition expo :: "real \<Rightarrow> int" where
  "expo x = (if 1 \<le> x then int (expUp x) else - int (expDown x))"

definition fl :: "real \<Rightarrow> real" where
  "fl x =
     (if x = 0 then 0
      else (let e = expo \<bar>x\<bar> - 52 in of_int (rne (x / 2 powi e)) * 2 powi e))"

definition Math_round :: "real \<Rightarrow> int" where
  "Math_round x = \<lfloor>x + 1/2\<rfloor>"

section \<open>localStorage\<close>

text \<open>
  One key of \<^verbatim>\<open>localStorage\<close>, seen through what the two \<^verbatim>\<open>getData\<close> functions do with
  it: \<^verbatim>\<open>getItem\<close> returns null (\<open>Missing\<close>), the empty string (\<open>Blank\<close>, falsy, so
  \<^verbatim>\<open>JSON.parse\<close> is not reached), a text on which \<^verbatim>\<open>JSON.parse\<close> throws (\<open>Corrupt\<close>), or
  the text of a record (\<open>Stored\<close>). \<^verbatim>\<open>saveData\<close> writes \<^verbatim>\<open>JSON.stringify\<close> of a record,
  and the write is taken to succeed.
\<close>

datatype error = SyntaxError

datatype 'a cell = Missing | Blank | Corrupt | Stored 'a

section \<open>Gamification (static/js/gamification.js)\<close>

record game_data =
  xp :: int
  level :: int
  streak :: int
  lastVisit :: int

definition Gamification_getData :: "zone \<Rightarrow> int \<Rightarrow> game_data cell \<Rightarrow> error + game_data" where
  "Gamification_getData tz now c =
     (case c of
        Stored d \<Rightarrow> Inr d
      | Corrupt \<Rightarrow> Inl SyntaxError
      | _ \<Rightarrow> Inr \<lparr>xp = 0, level = 1, streak = 0, lastVisit = toDateString tz now\<rparr>)"

definition Gamification_saveData :: "game_data \<Rightarrow> game_data cell" where
  "Gamification_saveData d = Stored d"

text \<open>\<^verbatim>\<open>Math.floor(xp / 100) + 1\<close>, for an integer \<^verbatim>\<open>xp\<close>: the quotient of the integer division,
  which the floor of the double quotient is below \<open>2^53\<close>.\<close>

definition getLevel :: "int \<Rightarrow> int" where
  "getLevel x = x div 100 + 1"

definition getXPForNextLevel :: "int \<Rightarrow> int" where
  "getXPForNextLevel l = l * 100"

text \<open>The progress is a width in percent; it is taken over the reals, the value the
  double of the source approximates to its last bit.\<close>

definition getProgress :: "int \<Rightarrow> int \<Rightarrow> real" where
  "getProgress x l =
     (let currentLevelXP = (l - 1) * 100;
          nextLevelXP = l * 100;
          progress = (of_int (x - currentLevelXP) / of_int (nextLevelXP - currentLevelXP)) * 100
      in min (max progress 0) 100)"

text \<open>What \<^verbatim>\<open>updateUI\<close> writes into the page: streak, XP, level badge, width of the bar.\<close>

record hud =
  streakCount :: int
  xpCount :: int
  levelBadge :: int
  xpProgressBar :: real

definition Gamification_updateUI :: "zone \<Rightarrow> int \<Rightarrow> game_data cell \<Rightarrow> error + hud" where
  "Gamification_updateUI tz now c =
     (case Gamification_getData tz now c of
        Inl e \<Rightarrow> Inl e
      | Inr d \<Rightarrow> Inr \<lparr>streakCount = streak d, xpCount = xp d, levelBadge = level d,
                      xpProgressBar = getProgress (xp d) (level d)\<rparr>)"

definition addXP :: "int \<Rightarrow> zone \<Rightarrow> int \<Rightarrow> game_data cell \<Rightarrow> error + game_data cell" where
  "addXP amount tz now c =
     (case Gamification_getData tz now c of
        Inl e \<Rightarrow> Inl e
      | Inr d \<Rightarrow>
          (let d1 = d\<lparr>xp := xp d + amount\<rparr>;
               newLevel = getLevel (xp d1);
               d2 = (if newLevel > level d1 then d1\<lparr>level := newLevel\<rparr> else d1);
               c' = Gamification_saveData d2
           in case Gamification_updateUI tz now c' of
                Inl e \<Rightarrow> Inl e
              | Inr _ \<Rightarrow> Inr c'))"

definition updateStreak :: "zone \<Rightarrow> int \<Rightarrow> game_data cell \<Rightarrow> error + game_data cell" where
  "updateStreak tz now c =
     (case Gamification_getData tz now c of
        Inl e \<Rightarrow> Inl e
      | Inr d \<Rightarrow>
          (let today = toDateString tz now;
               yesterday = toDateString tz (now - 86400000);
               d1 = (if lastVisit d = yesterday then d\<lparr>streak := streak d + 1\<rparr>
                     else if lastVisit d \<noteq> today then d\<lparr>streak := 1\<rparr>
                     else d);
               d2 = d1\<lparr>lastVisit := today\<rparr>;
               c' = Gamification_saveData d2
           in case Gamification_updateUI tz now c' of
                Inl e \<Rightarrow> Inl e
              | Inr _ \<Rightarrow> Inr c'))"

text \<open>A run of mutations of the progress record, each at its own instant, stopping at
  the first exception.\<close>

datatype mutation = AddExperience int int | RecomputeStreak int

fun mutate :: "zone \<Rightarrow> mutation list \<Rightarrow> game_data cell \<Rightarrow> error + game_data cell" where
  "mutate tz [] c = Inr c"
| "mutate tz (AddExperience amount now # rest) c =
     (case addXP amount tz now c of
        Inl e \<Rightarrow> Inl e
      | Inr c' \<Rightarrow> mutate tz rest c')"
| "mutate tz (RecomputeStreak now # rest) c =
     (case updateStreak tz now c of
        Inl e \<Rightarrow> Inl e
      | Inr c' \<Rightarrow> mutate tz rest c')"

fun positiveAmount :: "mutation \<Rightarrow> bool" where
  "positiveAmount (AddExperience amount now) = (0 < amount)"
| "positiveAmount (RecomputeStreak now) = True"

text \<open>The formula of the specification for the progress within a level, a fraction.\<close>

definition progressFraction_spec :: "int \<Rightarrow> int \<Rightarrow> real" where
  "progressFraction_spec e l = min (max (of_int (e - (l - 1) * 100) / 100) 0) 1"

section \<open>Analytics\<close>

record analytics_data =
  totalSigns :: int
  correctSigns :: int
  practiceTime :: int
  dailyProgress :: "int \<rightharpoonup> int"
  sessionStart :: int

definition Analytics_getData :: "int \<Rightarrow> analytics_data cell \<Rightarrow> error + analytics_data" where
  "Analytics_getData now c =
     (case c of
        Stored d \<Rightarrow> Inr d
      | Corrupt \<Rightarrow> Inl SyntaxError
      | _ \<Rightarrow> Inr \<lparr>totalSigns = 0, correctSigns = 0, practiceTime = 0,
                    dailyProgress = Map.empty, sessionStart = now\<rparr>)"

definition Analytics_saveData :: "analytics_data \<Rightarrow> analytics_data cell" where
  "Analytics_saveData d = Stored d"

definition getAccuracy :: "int \<Rightarrow> analytics_data cell \<Rightarrow> error + int" where
  "getAccuracy now c =
     (case Analytics_getData now c of
        Inl e \<Rightarrow> Inl e
      | Inr d \<Rightarrow>
          if totalSigns d = 0 then Inr 0
          else Inr (Math_round (fl (fl (of_int (correctSigns d) / of_int (totalSigns d)) * 100))))"

text \<open>\<^verbatim>\<open>data.dailyProgress[dateStr] || 0\<close>: a missing entry and a zero entry both read as 0.\<close>

definition countOn :: "analytics_data \<Rightarrow> int \<Rightarrow> int" where
  "countOn d day = (case dailyProgress d day of None \<Rightarrow> 0 | Some n \<Rightarrow> n)"

record chart_series =
  days :: "int list"
  labels :: "string list"

definition getLast7Days :: "zone \<Rightarrow> int \<Rightarrow> analytics_data cell \<Rightarrow> error + chart_series" where
  "getLast7Days tz now c =
     (case Analytics_getData now c of
        Inl e \<Rightarrow> Inl e
      | Inr d \<Rightarrow>
          Inr \<lparr>days = map (\<lambda>i. countOn d (toDateString tz (now - i * 86400000)))
                          [6, 5, 4, 3, 2, 1, 0],
               labels = map (\<lambda>i. weekdayShort tz (now - i * 86400000))
                          [6, 5, 4, 3, 2, 1, 0]\<rparr>)"

text \<open>What \<^verbatim>\<open>Analytics.updateUI\<close> shows: total, accuracy, practice time and the chart series
  (each page element is written only if it exists; the drawing itself is presentation).\<close>

record stats =
  totalSignsStat :: int
  accuracyStat :: int
  practiceTimeStat :: int
  progressChart :: chart_series

definition Analytics_updateUI :: "zone \<Rightarrow> int \<Rightarrow> analytics_data cell \<Rightarrow> error + stats" where
  "Analytics_updateUI tz now c =
     (case Analytics_getData now c of
        Inl e \<Rightarrow> Inl e
      | Inr d \<Rightarrow>
          (case getAccuracy now c of
             Inl e \<Rightarrow> Inl e
           | Inr accuracy \<Rightarrow>
               (case getLast7Days tz now c of
                  Inl e \<Rightarrow> Inl e
                | Inr series \<Rightarrow>
                    Inr \<lparr>totalSignsStat = totalSigns d, accuracyStat = accuracy,
                         practiceTimeStat = practiceTime d, progressChart = series\<rparr>)))"

definition trackSign :: "bool \<Rightarrow> zone \<Rightarrow> int \<Rightarrow> analytics_data cell \<Rightarrow> error + analytics_data cell" where
  "trackSign isCorrect tz now c =
     (case Analytics_getData now c of
        Inl e \<Rightarrow> Inl e
      | Inr d \<Rightarrow>
          (let d1 = d\<lparr>totalSigns := totalSigns d + 1\<rparr>;
               d2 = (if isCorrect then d1\<lparr>correctSigns := correctSigns d1 + 1\<rparr> else d1);
               today = toDateString tz now;
               d3 = d2\<lparr>dailyProgress := (dailyProgress d2)(today \<mapsto> countOn d2 today + 1)\<rparr>;
               c' = Analytics_saveData d3
           in case Analytics_updateUI tz now c' of
                Inl e \<Rightarrow> Inl e
              | Inr _ \<Rightarrow> Inr c'))"

definition updatePracticeTime :: "int \<Rightarrow> analytics_data cell \<Rightarrow> error + analytics_data cell" where
  "updatePracticeTime now c =
     (case Analytics_getData now c of
        Inl e \<Rightarrow> Inl e
      | Inr d \<Rightarrow>
          (let elapsed = (now - sessionStart d) div 1000
           in Inr (Analytics_saveData
                     (d\<lparr>practiceTime := practiceTime d + elapsed, sessionStart := now\<rparr>))))"

text \<open>A run of \<^verbatim>\<open>trackSign\<close> calls, each at its own instant, stopping at the first exception.\<close>

fun trackSigns :: "zone \<Rightarrow> (int \<times> bool) list \<Rightarrow> analytics_data cell \<Rightarrow> error + analytics_data cell" where
  "trackSigns tz [] c = Inr c"
| "trackSigns tz ((now, isCorrect) # rest) c =
     (case trackSign isCorrect tz now c of
        Inl e \<Rightarrow> Inl e
      | Inr c' \<Rightarrow> trackSigns tz rest c')"

section \<open>ModeSwitcher (static/js/modes.js)\<close>

text \<open>
  The page state the detection loop works on. \<open>transcriptList\<close> holds the children of
  the transcript element, most recent first; the placeholder paragraph is a child like
  the entries (an entry's markup shows the sign in upper case, its percentage and the
  time of day). \<open>posted\<close> lists the bodies sent to \<^verbatim>\<open>/save_detection\<close>, in order.
  The page elements the scripts write to are taken to exist, and both engines to be
  loaded, as on the page these scripts belong to.

  The sign is written into the entry's markup as it is, so an entry may contain elements
  of the sign's own making. What the browser's parser makes of a text is not part of
  these scripts: \<open>hasP sg\<close> says that the markup of an entry for the sign \<open>sg\<close> contains a
  \<^verbatim>\<open>p\<close> element, and is a parameter of everything that adds to the transcript.
\<close>

datatype node = Placeholder | Entry string int int

datatype mode = SignMode | SpeechMode

record world =
  game_store :: "game_data cell"
  analytics_store :: "analytics_data cell"
  currentMode :: mode
  detectionInterval :: bool
  transcriptSigns :: "string set"
  lastAddedSign :: "string option"
  lastAddedTime :: int
  shown :: "(string \<times> int) option"
  transcriptList :: "node list"
  posted :: "(string \<times> real) list"

text \<open>The answer to \<^verbatim>\<open>GET /latest\<close>: the request fails, or a body with optional
  \<^verbatim>\<open>sign\<close> and \<^verbatim>\<open>conf\<close>.\<close>

datatype reply = FetchFailed | Latest "string option" "real option"

definition saveToDatabase :: "string \<Rightarrow> real \<Rightarrow> world \<Rightarrow> world" where
  "saveToDatabase sg confidence w = w\<lparr>posted := posted w @ [(sg, confidence)]\<rparr>"

text \<open>\<^verbatim>\<open>transcriptList.querySelector('p')\<close> finds the placeholder paragraph, and a \<^verbatim>\<open>p\<close>
  element inside an entry.\<close>

fun containsP :: "(string \<Rightarrow> bool) \<Rightarrow> node \<Rightarrow> bool" where
  "containsP hasP Placeholder = True"
| "containsP hasP (Entry sg confidence time) = hasP sg"

definition addToTranscript :: "(string \<Rightarrow> bool) \<Rightarrow> string \<Rightarrow> int \<Rightarrow> int \<Rightarrow> world \<Rightarrow> world" where
  "addToTranscript hasP sg confidence now w =
     (let entry = Entry sg confidence now;
          l0 = transcriptList w;
          l1 = (if list_ex (containsP hasP) l0 then [] else l0);
          l2 = entry # l1;
          l3 = (if length l2 > 20 then butlast l2 else l2)
      in saveToDatabase sg (fl (of_int confidence / 100)) (w\<lparr>transcriptList := l3\<rparr>))"

text \<open>An exception leaves the page as it was when it was thrown: the result is the state
  reached, with the exception if there was one.\<close>

definition onCorrectDetection :: "zone \<Rightarrow> int \<Rightarrow> world \<Rightarrow> world \<times> error option" where
  "onCorrectDetection tz now w =
     (case addXP 10 tz now (game_store w) of
        Inl e \<Rightarrow> (w, Some e)
      | Inr g \<Rightarrow>
          (let w1 = w\<lparr>game_store := g\<rparr>
           in case trackSign True tz now (analytics_store w1) of
                Inl e \<Rightarrow> (w1, Some e)
              | Inr a \<Rightarrow> (w1\<lparr>analytics_store := a\<rparr>, None)))"

definition startSignDetection :: "world \<Rightarrow> world" where
  "startSignDetection w =
     (if detectionInterval w then w
      else w\<lparr>lastAddedSign := None, lastAddedTime := 0, transcriptSigns := {},
              detectionInterval := True\<rparr>)"

definition stopSignDetection :: "world \<Rightarrow> world" where
  "stopSignDetection w = (if detectionInterval w then w\<lparr>detectionInterval := False\<rparr> else w)"

text \<open>A press of a mode button: sign mode starts the detection, speech mode stops it.\<close>

definition switchMode :: "mode \<Rightarrow> world \<Rightarrow> world" where
  "switchMode m w =
     (let w1 = w\<lparr>currentMode := m\<rparr>
      in case m of SignMode \<Rightarrow> startSignDetection w1 | SpeechMode \<Rightarrow> stopSignDetection w1)"

text \<open>The callback of the 300 ms timer, from the arrival of the answer on. Its
  \<^verbatim>\<open>try\<close>/\<^verbatim>\<open>catch\<close> logs an exception and ends the callback.\<close>

definition detectionTick :: "(string \<Rightarrow> bool) \<Rightarrow> zone \<Rightarrow> int \<Rightarrow> reply \<Rightarrow> world \<Rightarrow> world" where
  "detectionTick hasP tz now r w =
     (case r of
        FetchFailed \<Rightarrow> w
      | Latest sign_opt conf_opt \<Rightarrow>
          (case (sign_opt, conf_opt) of
             (Some sg, Some c) \<Rightarrow>
               if sg \<noteq> [] \<and> c \<ge> 0.75 then
                 (let conf = Math_round (fl (c * 100));
                      w1 = w\<lparr>shown := Some (sg, conf)\<rparr>
                  in if conf \<ge> 80 \<and> sg \<notin> transcriptSigns w1 then
                       (case onCorrectDetection tz now (addToTranscript hasP sg conf now w1) of
                          (w2, Some e) \<Rightarrow> w2
                        | (w2, None) \<Rightarrow>
                            w2\<lparr>transcriptSigns := insert sg (transcriptSigns w2),
                                lastAddedSign := Some sg, lastAddedTime := now\<rparr>)
                     else w1)
               else w\<lparr>shown := None\<rparr>
           | _ \<Rightarrow> w\<lparr>shown := None\<rparr>))"

definition clearTranscript :: "world \<Rightarrow> world" where
  "clearTranscript w = w\<lparr>transcriptList := [Placeholder], transcriptSigns := {}\<rparr>"

text \<open>A session of the page: timer callbacks (a callback may still arrive after the timer
  was cleared), presses of the clear button and presses of a mode button, in order.\<close>

datatype event = Tick int reply | Clear | SwitchMode mode

fun step :: "(string \<Rightarrow> bool) \<Rightarrow> zone \<Rightarrow> event \<Rightarrow> world \<Rightarrow> world" where
  "step hasP tz (Tick now r) w = detectionTick hasP tz now r w"
| "step hasP tz Clear w = clearTranscript w"
| "step hasP tz (SwitchMode m) w = switchMode m w"

fun run :: "(string \<Rightarrow> bool) \<Rightarrow> zone \<Rightarrow> event list \<Rightarrow> world \<Rightarrow> world" where
  "run hasP tz [] w = w"
| "run hasP tz (ev # evs) w = run hasP tz evs (step hasP tz ev w)"

text \<open>The page as loaded with nothing persisted, in sign mode, detection started. And
  signs that bring no markup of their own.\<close>

definition plainSigns :: "string \<Rightarrow> bool" where
  "plainSigns sg = False"

definition freshWorld :: world where
  "freshWorld =
     \<lparr>game_store = Missing, analytics_store = Missing, currentMode = SignMode,
      detectionInterval = True,
      transcriptSigns = {}, lastAddedSign = None, lastAddedTime = 0, shown = None,
      transcriptList = [Placeholder], posted = []\<rparr>"

text \<open>Observations on a session: the entries of the transcript, the requests sent for a
  sign, and whether a persisted record can be read.\<close>

definition entries :: "world \<Rightarrow> node list" where
  "entries w = filter (\<lambda>n. n \<noteq> Placeholder) (transcriptList w)"

definition postsOf :: "string \<Rightarrow> world \<Rightarrow> nat" where
  "postsOf sg w = length (filter (\<lambda>p. fst p = sg) (posted w))"

definition readable :: "'a cell \<Rightarrow> bool" where
  "readable c = (c \<noteq> Corrupt)"

text \<open>What a commit of sign \<open>sg\<close> at percentage \<open>conf\<close> leaves behind, between the page
  before a timer callback and the page after it: the entry on top of the transcript, the
  request sent, the sign in the set of signs already taken, 10 XP added and one correct
  sign tracked. And what a callback that commits nothing leaves alone.\<close>

definition commitOf ::
    "(string \<Rightarrow> bool) \<Rightarrow> zone \<Rightarrow> int \<Rightarrow> string \<Rightarrow> int \<Rightarrow> world \<Rightarrow> world \<Rightarrow> bool" where
  "commitOf hasP tz now sg conf w w' \<longleftrightarrow>
     transcriptList w' = transcriptList (addToTranscript hasP sg conf now w)
     \<and> hd (transcriptList w') = Entry sg conf now
     \<and> posted w' = posted w @ [(sg, fl (of_int conf / 100))]
     \<and> transcriptSigns w' = insert sg (transcriptSigns w)
     \<and> addXP 10 tz now (game_store w) = Inr (game_store w')
     \<and> trackSign True tz now (analytics_store w) = Inr (analytics_store w')"

definition untouched :: "world \<Rightarrow> world \<Rightarrow> bool" where
  "untouched w w' \<longleftrightarrow>
     transcriptList w' = transcriptList w
     \<and> posted w' = posted w
     \<and> transcriptSigns w' = transcriptSigns w
     \<and> game_store w' = game_store w
     \<and> analytics_store w' = analytics_store w"

text \<open>An analytics record in which every tracked sign was a correct one.\<close>

definition onlyCorrect :: "analytics_data cell \<Rightarrow> bool" where
  "onlyCorrect c =
     (case c of
        Stored a \<Rightarrow> correctSigns a = totalSigns a \<and> 0 \<le> totalSigns a
      | Corrupt \<Rightarrow> False
      | _ \<Rightarrow> True)"

text \<open>The events that empty the set of signs: a press of the clear button, and a switch
  to sign mode while the detection is stopped, which starts it anew. And a stretch of a
  session, from a given page on, in which no event does.\<close>

fun emptiesSet :: "event \<Rightarrow> world \<Rightarrow> bool" where
  "emptiesSet (Tick now r) w = False"
| "emptiesSet Clear w = True"
| "emptiesSet (SwitchMode m) w = (m = SignMode \<and> \<not> detectionInterval w)"

fun noReset :: "(string \<Rightarrow> bool) \<Rightarrow> zone \<Rightarrow> event list \<Rightarrow> world \<Rightarrow> bool" where
  "noReset hasP tz [] w = True"
| "noReset hasP tz (ev # evs) w =
     (\<not> emptiesSet ev w \<and> noReset hasP tz evs (step hasP tz ev w))"

section \<open>Loading persisted state\<close>

lemmas game_defs = Gamification_getData_def Gamification_saveData_def Gamification_updateUI_def
  addXP_def updateStreak_def

lemmas analytics_defs = Analytics_getData_def Analytics_saveData_def Analytics_updateUI_def
  getAccuracy_def getLast7Days_def trackSign_def updatePracticeTime_def

text \<open>
  A stored text that does not parse: both \<^verbatim>\<open>getData\<close> functions call \<^verbatim>\<open>JSON.parse\<close> with no
  handler around it, so the load raises, where a missing record gives the defaults.
\<close>

theorem corrupt_record_raises_counterexample:
  "Gamification_getData utc 0 Corrupt = Inl SyntaxError
   \<and> Gamification_getData utc 0 Corrupt \<noteq> Gamification_getData utc 0 Missing
   \<and> Analytics_getData 0 Corrupt = Inl SyntaxError
   \<and> Analytics_getData 0 Corrupt \<noteq> Analytics_getData 0 Missing"
  by (simp add: Gamification_getData_def Analytics_getData_def)

text \<open>
  C3, as the code has it: a record that is missing (or an empty text) is loaded as the
  in-memory defaults by both engines; a record that fails to parse makes the load raise
  \<open>SyntaxError\<close>, and every operation of either engine that starts by loading (showing the
  state, adding experience, updating the streak, tracking a sign, flushing the practice time,
  accuracy, the seven-day series) raises with it.
\<close>

theorem load_defaults_or_raise:
  "Gamification_getData tz now Missing
     = Inr \<lparr>xp = 0, level = 1, streak = 0, lastVisit = toDateString tz now\<rparr>
   \<and> Gamification_getData tz now Blank
     = Inr \<lparr>xp = 0, level = 1, streak = 0, lastVisit = toDateString tz now\<rparr>
   \<and> Analytics_getData now Missing
     = Inr \<lparr>totalSigns = 0, correctSigns = 0, practiceTime = 0,
            dailyProgress = Map.empty, sessionStart = now\<rparr>
   \<and> Analytics_getData now Blank
     = Inr \<lparr>totalSigns = 0, correctSigns = 0, practiceTime = 0,
            dailyProgress = Map.empty, sessionStart = now\<rparr>
   \<and> Gamification_getData tz now Corrupt = Inl SyntaxError
   \<and> Gamification_updateUI tz now Corrupt = Inl SyntaxError
   \<and> addXP amount tz now Corrupt = Inl SyntaxError
   \<and> updateStreak tz now Corrupt = Inl SyntaxError
   \<and> Analytics_getData now Corrupt = Inl SyntaxError
   \<and> Analytics_updateUI tz now Corrupt = Inl SyntaxError
   \<and> trackSign isCorrect tz now Corrupt = Inl SyntaxError
   \<and> updatePracticeTime now Corrupt = Inl SyntaxError
   \<and> getAccuracy now Corrupt = Inl SyntaxError
   \<and> getLast7Days tz now Corrupt = Inl SyntaxError"
  by (simp add: game_defs analytics_defs)

section \<open>The progress within a level\<close>



section \<open>The streak\<close>

text \<open>
  In a zone without clock changes the instant 24 hours back lies on the previous calendar
  day, whatever the time of day.
\<close>

lemma toDateString_fixed_offset:
  "toDateString (\<lambda>_. off) (now - i * 86400000) = toDateString (\<lambda>_. off) now - i"
proof -
  have "now - i * 86400000 + off = (now + off) + (- i) * 86400000" by simp
  then have "(now - i * 86400000 + off) div 86400000 = (now + off) div 86400000 + (- i)"
    by (simp only: div_mult_self1 [of 86400000 "now + off" "- i"])
  then show ?thesis by (simp add: toDateString_def msPerDay_def)
qed

text \<open>
  Whenever the instant 24 hours back lies on the previous calendar day, \<^verbatim>\<open>updateStreak\<close>
  keeps the streak on a visit of the same day, adds one after a visit of the day before,
  resets it to 1 otherwise, and stores today's date.
\<close>

lemma updateStreak_regular:
  assumes "toDateString tz (now - 86400000) = toDateString tz now - 1"
  shows "updateStreak tz now (Stored d)
     = Inr (Stored (d\<lparr>streak := (if lastVisit d = toDateString tz now then streak d
                                  else if lastVisit d = toDateString tz now - 1 then streak d + 1
                                  else 1),
                      lastVisit := toDateString tz now\<rparr>))"
  using assms by (simp add: game_defs)

text \<open>
  C5 at a day of 25 hours. In a zone whose clocks go back at 2026-10-25T01:00Z, at
  23:30 local time of that day the instant 24 hours back is 00:30 of the same day, so
  \<^verbatim>\<open>yesterday\<close> is today's date: a streak of 3 with a last visit today becomes 4,
  and does so at every call in that hour.
\<close>

theorem streak_clock_change:
  "toDateString fallBackZone 1792971000000 = 20751
   \<and> toDateString fallBackZone (1792971000000 - 86400000) = 20751
   \<and> updateStreak fallBackZone 1792971000000
        (Stored \<lparr>xp = 0, level = 1, streak = 3, lastVisit = 20751\<rparr>)
      = Inr (Stored \<lparr>xp = 0, level = 1, streak = 4, lastVisit = 20751\<rparr>)"
  by (simp add: game_defs toDateString_def msPerDay_def fallBackZone_def)

text \<open>
  The first run with nothing persisted, in a zone without clock changes: the defaults carry
  today's date as the last visit, so the streak stays at its default 0.
\<close>

theorem first_run_streak_counterexample:
  "updateStreak utc 0 Missing = Inr (Stored \<lparr>xp = 0, level = 1, streak = 0, lastVisit = 0\<rparr>)
   \<and> (0::int) \<noteq> 1"
  by (simp add: game_defs toDateString_def msPerDay_def utc_def)

text \<open>
  C6, as the code has it: on the first run (no persisted progress record), when the instant
  24 hours back lies on another calendar day than now, \<^verbatim>\<open>updateStreak\<close> stores the
  defaults unchanged, with a streak of 0 and today's date as the last visit.
\<close>

theorem first_run_streak:
  assumes "toDateString tz (now - 86400000) \<noteq> toDateString tz now"
  shows "updateStreak tz now Missing
     = Inr (Stored \<lparr>xp = 0, level = 1, streak = 0, lastVisit = toDateString tz now\<rparr>)"
  using assms by (simp add: game_defs)

theorem first_run_streak_witness:
  "toDateString utc (1792971000000 - 86400000) \<noteq> toDateString utc 1792971000000
   \<and> updateStreak utc 1792971000000 Missing
     = Inr (Stored \<lparr>xp = 0, level = 1, streak = 0, lastVisit = 20751\<rparr>)"
proof -
  have h: "toDateString utc (1792971000000 - 86400000) \<noteq> toDateString utc 1792971000000"
    by (simp add: toDateString_def msPerDay_def utc_def)
  have "toDateString utc 1792971000000 = 20751"
    by (simp add: toDateString_def msPerDay_def utc_def)
  with h first_run_streak [OF h] show ?thesis by simp
qed

section \<open>Rounding to doubles\<close>

text \<open>
  Rounding to the nearest integer with ties to even: it stays within a half of its
  argument, fixes the integers, and reaches an even integer exactly from half below it.
\<close>

lemma rne_cases: "rne x = \<lfloor>x\<rfloor> \<or> rne x = \<lfloor>x\<rfloor> + 1"
  by (simp add: rne_def Let_def)

lemma rne_of_int [simp]: "rne (of_int n) = n"
  by (simp add: rne_def Let_def)

lemma rne_le: "x \<le> of_int n \<Longrightarrow> rne x \<le> n"
proof -
  assume a: "x \<le> of_int n"
  show ?thesis
  proof (cases "x = of_int n")
    case True then show ?thesis by simp
  next
    case False
    with a have "x < of_int n" by simp
    then have "\<lfloor>x\<rfloor> < n" by (simp add: floor_less_iff)
    with rne_cases [of x] show ?thesis by auto
  qed
qed

lemma rne_ge: "of_int n \<le> x \<Longrightarrow> n \<le> rne x"
proof -
  assume "of_int n \<le> x"
  then have "n \<le> \<lfloor>x\<rfloor>" by (simp add: le_floor_iff)
  with rne_cases [of x] show ?thesis by auto
qed

lemma rne_err: "\<bar>of_int (rne x) - x\<bar> \<le> 1/2"
proof -
  have "of_int \<lfloor>x\<rfloor> \<le> x" "x < of_int \<lfloor>x\<rfloor> + 1" by linarith+
  then show ?thesis by (auto simp: rne_def Let_def)
qed

lemma rne_ge_even:
  assumes "even n"
  shows "(n \<le> rne y) = (of_int n - 1/2 \<le> y)"
proof (cases "of_int n \<le> y")
  case True
  with rne_ge [of n y] show ?thesis by simp
next
  case False
  then have lt: "y < of_int n" by simp
  then have fl: "\<lfloor>y\<rfloor> \<le> n - 1" by (simp add: floor_less_iff)
  show ?thesis
  proof (cases "\<lfloor>y\<rfloor> = n - 1")
    case True
    then have odd: "odd \<lfloor>y\<rfloor>" using assms by simp
    have "y - of_int \<lfloor>y\<rfloor> = y - of_int n + 1" using True by simp
    then show ?thesis using True odd by (auto simp: rne_def Let_def)
  next
    case False
    with fl have f2: "\<lfloor>y\<rfloor> \<le> n - 2" by simp
    with rne_cases [of y] have "rne y < n" by auto
    moreover have "y < of_int \<lfloor>y\<rfloor> + 1" by linarith
    then have "y < of_int n - 1" using f2 by linarith
    ultimately show ?thesis by simp
  qed
qed

text \<open>
  The binary exponent brackets a positive number between two consecutive powers of 2 and
  is the only integer that does; so a double is the significand \<open>rne (x / 2^(e - 52))\<close>
  scaled back, lies between the same two powers, and is off by at most \<open>x / 2^53\<close>.
\<close>

lemma expUp_bounds: "1 \<le> x \<Longrightarrow> 2 ^ expUp x \<le> x \<and> x < 2 ^ Suc (expUp x)"
proof (induction x rule: expUp.induct)
  case (1 x)
  show ?case
  proof (cases "2 \<le> x")
    case True
    then have "1 \<le> x / 2" by simp
    from "1.IH" [OF True this] True show ?thesis
      by (subst (1 2) expUp.simps) (simp add: field_simps)
  next
    case False
    with "1.prems" show ?thesis by (subst (1 2) expUp.simps) simp
  qed
qed

lemma expDown_bounds:
  "0 < x \<Longrightarrow> x < 1 \<Longrightarrow> 1 \<le> x * 2 ^ expDown x \<and> x * 2 ^ expDown x < 2"
proof (induction x rule: expDown.induct)
  case (1 x)
  have c: "0 < x \<and> x < 1" using "1.prems" by simp
  show ?case
  proof (cases "2 * x < 1")
    case True
    from "1.IH" [OF c _ True] c show ?thesis
      by (subst (1 2) expDown.simps) (simp add: field_simps)
  next
    case False
    then have "expDown (2 * x) = 0" by (subst expDown.simps) simp
    with False c show ?thesis by (subst (1 2) expDown.simps) simp
  qed
qed

lemma expo_cases:
  assumes "0 < x"
  shows "(1 \<le> x \<and> (2::real) powi expo x = 2 ^ expUp x)
       \<or> (x < 1 \<and> (2::real) powi expo x = 1 / 2 ^ expDown x)"
  by (cases "1 \<le> x") (simp_all add: expo_def power_int_minus_divide)

lemma expo_bounds:
  assumes "0 < x"
  shows "2 powi expo x \<le> x" and "x < 2 powi (expo x + 1)"
proof -
  have step: "(2::real) powi (expo x + 1) = 2 powi expo x * 2"
    by (rule power_int_add_1) simp
  from expo_cases [OF assms]
  have "2 powi expo x \<le> x \<and> x < 2 powi expo x * 2"
  proof
    assume a: "1 \<le> x \<and> (2::real) powi expo x = 2 ^ expUp x"
    with expUp_bounds [of x] show ?thesis by simp
  next
    assume a: "x < 1 \<and> (2::real) powi expo x = 1 / 2 ^ expDown x"
    define P where "P = (2::real) ^ expDown x"
    have P: "0 < P" by (simp add: P_def)
    from a expDown_bounds [OF assms, of] have "1 \<le> x * P" "x * P < 2"
      by (simp_all add: P_def)
    then have "1 / P \<le> x" "x < 2 / P"
      using P by (simp_all add: pos_divide_le_eq pos_less_divide_eq)
    then show ?thesis using a by (simp add: P_def)
  qed
  then show "2 powi expo x \<le> x" and "x < 2 powi (expo x + 1)"
    by (simp_all add: step)
qed

lemma expo_unique:
  assumes "0 < x" "2 powi j \<le> x" "x < 2 powi (j + 1)"
  shows "expo x = j"
proof (rule ccontr)
  assume ne: "expo x \<noteq> j"
  note b = expo_bounds [OF assms(1)]
  show False
  proof (cases "expo x < j")
    case True
    then have "(2::real) powi (expo x + 1) \<le> 2 powi j"
      by (intro power_int_increasing) simp_all
    with b(2) assms(2) show False by linarith
  next
    case False
    with ne have "j + 1 \<le> expo x" by simp
    then have "(2::real) powi (j + 1) \<le> 2 powi expo x"
      by (intro power_int_increasing) simp_all
    with b(1) assms(3) show False by linarith
  qed
qed

lemma fl_pos_eq:
  assumes "0 < x" "2 powi j \<le> x" "x < 2 powi (j + 1)"
  shows "fl x = of_int (rne (x / 2 powi (j - 52))) * 2 powi (j - 52)"
  using assms expo_unique [OF assms] by (simp add: fl_def Let_def)

lemma fl_pos_expo:
  assumes "0 < x"
  shows "fl x = of_int (rne (x / 2 powi (expo x - 52))) * 2 powi (expo x - 52)"
  using assms by (simp add: fl_def Let_def)

lemma scaled_bounds:
  assumes "0 < x"
  shows "2 ^ 52 \<le> x / 2 powi (expo x - 52)" and "x / 2 powi (expo x - 52) \<le> 2 ^ 53"
proof -
  define r where "r = x / 2 powi expo x"
  have p: "(0::real) < 2 powi expo x" by (simp add: zero_less_power_int)
  have s: "(2::real) powi (expo x + 1) = 2 powi expo x * 2"
    by (rule power_int_add_1) simp
  note b = expo_bounds [OF assms]
  have y: "x / 2 powi (expo x - 52) = r * 2 ^ 52" by (simp add: r_def power_int_diff)
  have "1 \<le> r" unfolding r_def using b(1) p by (simp add: pos_le_divide_eq)
  moreover have "r \<le> 2" unfolding r_def using b(2) p by (simp add: s pos_divide_le_eq)
  ultimately show "2 ^ 52 \<le> x / 2 powi (expo x - 52)" and "x / 2 powi (expo x - 52) \<le> 2 ^ 53"
    unfolding y by simp_all
qed

lemma fl_nonneg: "0 \<le> x \<Longrightarrow> 0 \<le> fl x"
proof (cases "x = 0")
  case True then show ?thesis by (simp add: fl_def)
next
  case False
  assume "0 \<le> x"
  with False have x: "0 < x" by simp
  from scaled_bounds(1) [OF x] have "of_int 0 \<le> x / 2 powi (expo x - 52)" by simp
  then have "0 \<le> rne (x / 2 powi (expo x - 52))" by (rule rne_ge)
  then show ?thesis by (simp add: fl_pos_expo [OF x] zero_le_power_int)
qed

lemma fl_bounds:
  assumes "0 < x"
  shows "2 powi expo x \<le> fl x" and "fl x \<le> 2 powi (expo x + 1)"
proof -
  define y where "y = x / 2 powi (expo x - 52)"
  define s where "s = (2::real) powi (expo x - 52)"
  have p: "0 < s" by (simp add: s_def zero_less_power_int)
  have lo: "(2::real) powi expo x = 2 ^ 52 * s"
    by (simp add: s_def power_int_diff)
  have "(2::real) powi (expo x + 1) = 2 powi expo x * 2"
    by (rule power_int_add_1) simp
  with lo have hi: "(2::real) powi (expo x + 1) = 2 ^ 53 * s" by simp
  from scaled_bounds [OF assms]
  have sb: "of_int (2 ^ 52) \<le> y" "y \<le> of_int (2 ^ 53)" by (simp_all add: y_def)
  have "(2::int) ^ 52 \<le> rne y" by (rule rne_ge [OF sb(1)])
  then have "real_of_int (2 ^ 52) \<le> of_int (rne y)" by (simp only: of_int_le_iff)
  then have a: "(2::real) ^ 52 \<le> of_int (rne y)" by simp
  have "rne y \<le> (2::int) ^ 53" by (rule rne_le [OF sb(2)])
  then have "real_of_int (rne y) \<le> of_int (2 ^ 53)" by (simp only: of_int_le_iff)
  then have b: "of_int (rne y) \<le> (2::real) ^ 53" by simp
  have f: "fl x = of_int (rne y) * s"
    by (simp add: fl_pos_expo [OF assms] y_def s_def)
  show "2 powi expo x \<le> fl x"
    unfolding f lo using a p by (intro mult_right_mono) simp_all
  show "fl x \<le> 2 powi (expo x + 1)"
    unfolding f hi using b p by (intro mult_right_mono) simp_all
qed

lemma fl_le_pow2:
  assumes "0 < x" "x \<le> 2 powi j"
  shows "fl x \<le> 2 powi j"
proof (cases "expo x < j")
  case True
  then have "(2::real) powi (expo x + 1) \<le> 2 powi j"
    by (intro power_int_increasing) simp_all
  with fl_bounds(2) [OF assms(1)] show ?thesis by linarith
next
  case False
  from expo_bounds(1) [OF assms(1)] assms(2) have "(2::real) powi expo x \<le> 2 powi j" by linarith
  have "expo x \<le> j"
  proof (rule ccontr)
    assume "\<not> expo x \<le> j"
    then have "j + 1 \<le> expo x" by simp
    then have "(2::real) powi (j + 1) \<le> 2 powi expo x"
      by (intro power_int_increasing) simp_all
    moreover have "(2::real) powi j < 2 powi (j + 1)"
      by (intro power_int_strict_increasing) simp_all
    ultimately show False using \<open>(2::real) powi expo x \<le> 2 powi j\<close> by linarith
  qed
  with False have e: "expo x = j" by simp
  with expo_bounds(1) [OF assms(1)] assms(2) have x: "x = 2 powi j" by simp
  have "x / 2 powi (j - 52) = of_int (2 ^ 52)"
    by (simp add: x power_int_diff)
  then have "rne (x / 2 powi (j - 52)) = 2 ^ 52" by (simp only: rne_of_int)
  then show ?thesis
    using fl_pos_expo [OF assms(1)] by (simp add: e power_int_diff)
qed

lemma fl_ge_pow2:
  assumes "0 < x" "2 powi j \<le> x"
  shows "2 powi j \<le> fl x"
proof -
  have "j \<le> expo x"
  proof (rule ccontr)
    assume "\<not> j \<le> expo x"
    then have "expo x + 1 \<le> j" by simp
    then have "(2::real) powi (expo x + 1) \<le> 2 powi j"
      by (intro power_int_increasing) simp_all
    with expo_bounds(2) [OF assms(1)] assms(2) show False by linarith
  qed
  then have "(2::real) powi j \<le> 2 powi expo x"
    by (intro power_int_increasing) simp_all
  with fl_bounds(1) [OF assms(1)] show ?thesis by linarith
qed

lemma fl_err:
  assumes "0 < x"
  shows "\<bar>fl x - x\<bar> \<le> x / 2 ^ 53"
proof -
  let ?s = "(2::real) powi (expo x - 52)"
  let ?y = "x / ?s"
  have p: "0 < ?s" by (simp add: zero_less_power_int)
  have "fl x - x = (of_int (rne ?y) - ?y) * ?s"
    using p by (simp add: fl_pos_expo [OF assms] field_simps)
  then have "\<bar>fl x - x\<bar> = \<bar>of_int (rne ?y) - ?y\<bar> * ?s"
    using p by (simp add: abs_mult)
  also have "\<dots> \<le> (1/2) * ?s"
    using rne_err [of ?y] p by (intro mult_right_mono) simp_all
  also have "\<dots> = 2 powi expo x / 2 ^ 53" by (simp add: power_int_diff)
  also have "\<dots> \<le> x / 2 ^ 53"
    using expo_bounds(1) [OF assms] by (simp add: divide_right_mono)
  finally show ?thesis .
qed

text \<open>
  Evaluation of a double at a numeral, and three facts about percentages: a double
  product of at most 100 stays at most 100; \<^verbatim>\<open>Math.round\<close> of a double less than 1 away from
  a real is at most 1 away from the rounded real; and a confidence of at least 0.75 gives
  80 percent or more exactly when its exact product with 100 is at least \<open>79.5 - 2^-47\<close>.
\<close>

lemmas dbl_eval = fl_def expo_def expUp.simps expDown.simps rne_def Let_def Math_round_def
  power_int_minus

lemma fl_le_100:
  assumes "0 \<le> x" "x \<le> 100"
  shows "fl x \<le> 100"
proof (cases "x \<le> 64")
  case True
  show ?thesis
  proof (cases "x = 0")
    case True then show ?thesis by (simp add: fl_def)
  next
    case False
    with assms have x: "0 < x" by simp
    from True have "x \<le> 2 powi 6" by simp
    from fl_le_pow2 [OF x this] show ?thesis by simp
  qed
next
  case False
  then have x: "0 < x" "2 powi 6 \<le> x" "x < 2 powi (6 + 1)" using assms by simp_all
  have f: "fl x = of_int (rne (x * 2 ^ 46)) / 2 ^ 46"
    using fl_pos_eq [OF x] by (simp add: power_int_minus field_simps)
  have "x * 2 ^ 46 \<le> of_int (100 * 2 ^ 46)" using assms by simp
  then have "rne (x * 2 ^ 46) \<le> 100 * 2 ^ 46" by (rule rne_le)
  then have "real_of_int (rne (x * 2 ^ 46)) \<le> of_int (100 * 2 ^ 46)"
    by (simp only: of_int_le_iff)
  then show ?thesis unfolding f by (simp add: pos_divide_le_eq)
qed

lemma Math_round_close:
  assumes "\<bar>p - e\<bar> < 1"
  shows "\<bar>Math_round p - round e\<bar> \<le> 1"
proof -
  define a where "a = p + 1/2"
  define b where "b = e + 1/2"
  have ab: "a \<le> b + 1" "b \<le> a + 1" using assms by (simp_all add: a_def b_def)
  have "\<lfloor>a\<rfloor> \<le> \<lfloor>b + 1\<rfloor>" by (rule floor_mono [OF ab(1)])
  moreover have "\<lfloor>b\<rfloor> \<le> \<lfloor>a + 1\<rfloor>" by (rule floor_mono [OF ab(2)])
  ultimately have "\<bar>\<lfloor>a\<rfloor> - \<lfloor>b\<rfloor>\<bar> \<le> 1" by simp
  then show ?thesis by (simp add: Math_round_def round_def a_def b_def)
qed

lemma percent_threshold:
  "(0.75 \<le> c \<and> 80 \<le> Math_round (fl (c * 100))) = (159 / 2 - 1 / 2 ^ 47 \<le> c * 100)"
proof (cases "0.75 \<le> c")
  case False
  then have "c * 100 < 75" by simp
  moreover have "(75::real) < 159 / 2 - 1 / 2 ^ 47" by simp
  ultimately show ?thesis using False by simp
next
  case True
  define x where "x = c * 100"
  have x75: "75 \<le> x" using True by (simp add: x_def)
  show ?thesis
  proof (cases "x < 128")
    case False
    then have "2 powi 7 \<le> x" by simp
    moreover have "0 < x" using x75 by simp
    ultimately have "2 powi 7 \<le> fl x" by (intro fl_ge_pow2)
    then have "128 \<le> fl x" by simp
    then have "80 \<le> Math_round (fl x)" unfolding Math_round_def by (simp add: le_floor_iff)
    moreover have "159 / 2 - 1 / 2 ^ 47 \<le> x" using False by simp
    ultimately show ?thesis using True by (simp add: x_def)
  next
    case lt: True
    have x: "0 < x" "2 powi 6 \<le> x" "x < 2 powi (6 + 1)" using x75 lt by simp_all
    define y where "y = x * 2 ^ 46"
    define N :: int where "N = 159 * 2 ^ 45"
    have f: "fl x = of_int (rne y) / 2 ^ 46"
      using fl_pos_eq [OF x] by (simp add: y_def power_int_minus field_simps)
    have evenN: "even N" by (simp add: N_def)
    have "(80 \<le> Math_round (fl x)) = (159 / 2 \<le> fl x)"
      unfolding Math_round_def by (simp add: le_floor_iff) linarith
    also have "\<dots> = (real_of_int N \<le> of_int (rne y))"
      unfolding f N_def by (simp add: pos_le_divide_eq)
    also have "\<dots> = (N \<le> rne y)" by (simp only: of_int_le_iff)
    also have "\<dots> = (of_int N - 1/2 \<le> y)" by (rule rne_ge_even [OF evenN])
    also have "\<dots> = (159 / 2 - 1 / 2 ^ 47 \<le> x)"
      unfolding y_def N_def by (simp add: field_simps)
    finally show ?thesis using True by (simp add: x_def)
  qed
qed

section \<open>Experience and level\<close>

lemma getLevel_floor: "getLevel e = \<lfloor>of_int e / (100::real)\<rfloor> + 1"
proof -
  have "\<lfloor>real_of_int e / real_of_int 100\<rfloor> = e div 100" by (rule floor_divide_of_int_eq)
  then show ?thesis by (simp add: getLevel_def)
qed

lemma getLevel_mono: "x \<le> y \<Longrightarrow> getLevel x \<le> getLevel y"
  by (simp add: getLevel_def zdiv_mono1)

lemma addXP_level:
  assumes "Gamification_getData tz now c = Inr d"
    and "level d = \<lfloor>of_int (xp d) / (100::real)\<rfloor> + 1"
    and "0 < amount"
  shows "\<exists>d'. addXP amount tz now c = Inr (Stored d')
              \<and> xp d' = xp d + amount \<and> level d' = \<lfloor>of_int (xp d') / (100::real)\<rfloor> + 1"
proof -
  have "getLevel (xp d) \<le> getLevel (xp d + amount)"
    using assms(3) by (intro getLevel_mono) simp
  moreover have "level d = getLevel (xp d)" using assms(2) by (simp add: getLevel_floor)
  ultimately have "\<exists>d'. addXP amount tz now c = Inr (Stored d')
              \<and> xp d' = xp d + amount \<and> level d' = getLevel (xp d')"
    using assms(1) by (auto simp: game_defs Let_def)
  then show ?thesis by (simp add: getLevel_floor)
qed

lemma updateStreak_level:
  assumes "Gamification_getData tz now c = Inr d"
    and "level d = \<lfloor>of_int (xp d) / (100::real)\<rfloor> + 1"
  shows "\<exists>d'. updateStreak tz now c = Inr (Stored d')
              \<and> xp d' = xp d \<and> level d' = \<lfloor>of_int (xp d') / (100::real)\<rfloor> + 1"
  using assms by (auto simp: game_defs Let_def)

lemma defaults_level:
  "\<exists>d. Gamification_getData tz now Missing = Inr d \<and> xp d = 0 \<and> level d = 1
       \<and> level d = \<lfloor>of_int (xp d) / (100::real)\<rfloor> + 1"
  by (simp add: Gamification_getData_def)

lemma mutate_level:
  assumes "list_all positiveAmount ms"
    and "Gamification_getData tz t0 c = Inr d"
    and "level d = \<lfloor>of_int (xp d) / (100::real)\<rfloor> + 1"
  shows "\<exists>c' d'. mutate tz ms c = Inr c' \<and> Gamification_getData tz t1 c' = Inr d'
            \<and> level d' = \<lfloor>of_int (xp d') / (100::real)\<rfloor> + 1"
  using assms
proof (induction ms arbitrary: c d t0)
  case Nil
  then show ?case by (cases c) (auto simp: Gamification_getData_def)
next
  case (Cons m ms)
  have rest: "list_all positiveAmount ms" using Cons.prems(1) by simp
  have load: "Gamification_getData tz t (Stored e) = Inr e" for t e
    by (simp add: Gamification_getData_def)
  have same: "\<exists>d2. Gamification_getData tz t c = Inr d2 \<and> xp d2 = xp d \<and> level d2 = level d" for t
    using Cons.prems(2) by (cases c) (auto simp: Gamification_getData_def)
  show ?case
  proof (cases m)
    case (AddExperience amount now)
    then have pos: "0 < amount" using Cons.prems(1) by simp
    from same [of now] obtain d2 where d2: "Gamification_getData tz now c = Inr d2"
      "xp d2 = xp d" "level d2 = level d" by blast
    then have "level d2 = \<lfloor>of_int (xp d2) / (100::real)\<rfloor> + 1" using Cons.prems(3) by simp
    from addXP_level [OF d2(1) this pos]
    obtain d3 where d3: "addXP amount tz now c = Inr (Stored d3)"
      "level d3 = \<lfloor>of_int (xp d3) / (100::real)\<rfloor> + 1" by blast
    from Cons.IH [OF rest load d3(2)] d3(1) show ?thesis by (simp add: AddExperience)
  next
    case (RecomputeStreak now)
    from same [of now] obtain d2 where d2: "Gamification_getData tz now c = Inr d2"
      "xp d2 = xp d" "level d2 = level d" by blast
    then have "level d2 = \<lfloor>of_int (xp d2) / (100::real)\<rfloor> + 1" using Cons.prems(3) by simp
    from updateStreak_level [OF d2(1) this]
    obtain d3 where d3: "updateStreak tz now c = Inr (Stored d3)"
      "level d3 = \<lfloor>of_int (xp d3) / (100::real)\<rfloor> + 1" by blast
    from Cons.IH [OF rest load d3(2)] d3(1) show ?thesis by (simp add: RecomputeStreak)
  qed
qed

text \<open>
  C2: the level computed from an experience \<open>e\<close> is \<open>floor(e / 100) + 1\<close>. When the loaded
  progress state has \<open>level = floor(xp / 100) + 1\<close>, adding a positive amount of experience
  stores a state with the amount added and again \<open>level = floor(xp / 100) + 1\<close>, and
  updating the streak stores a state with the same experience and the same equation.
  The defaults satisfy it, and so does the state after any run of mutations with positive
  amounts that starts with nothing persisted: the equation always holds.
\<close>

theorem level_invariant_preserved:
  assumes "Gamification_getData tz now c = Inr d"
    and "level d = \<lfloor>of_int (xp d) / (100::real)\<rfloor> + 1"
    and "0 < amount"
  shows "(\<exists>d'. addXP amount tz now c = Inr (Stored d')
              \<and> xp d' = xp d + amount \<and> level d' = \<lfloor>of_int (xp d') / (100::real)\<rfloor> + 1)
       \<and> (\<exists>d'. updateStreak tz now c = Inr (Stored d')
              \<and> xp d' = xp d \<and> level d' = \<lfloor>of_int (xp d') / (100::real)\<rfloor> + 1)
       \<and> getLevel e = \<lfloor>of_int e / (100::real)\<rfloor> + 1
       \<and> (\<exists>d0. Gamification_getData tz now Missing = Inr d0
              \<and> level d0 = \<lfloor>of_int (xp d0) / (100::real)\<rfloor> + 1)
       \<and> (list_all positiveAmount ms \<longrightarrow>
            (\<exists>c' d'. mutate tz ms Missing = Inr c' \<and> Gamification_getData tz now c' = Inr d'
                \<and> level d' = \<lfloor>of_int (xp d') / (100::real)\<rfloor> + 1))"
proof -
  from defaults_level [of tz now] obtain d0 where d0: "Gamification_getData tz now Missing = Inr d0"
    "level d0 = \<lfloor>of_int (xp d0) / (100::real)\<rfloor> + 1" by blast
  have "\<exists>c' d'. mutate tz ms Missing = Inr c' \<and> Gamification_getData tz now c' = Inr d'
                \<and> level d' = \<lfloor>of_int (xp d') / (100::real)\<rfloor> + 1"
    if "list_all positiveAmount ms"
    by (rule mutate_level [OF that d0])
  with addXP_level [OF assms] updateStreak_level [OF assms(1,2)] getLevel_floor [of e] d0
  show ?thesis by blast
qed

theorem level_invariant_preserved_witness:
  "Gamification_getData utc 0 (Stored \<lparr>xp = 95, level = 1, streak = 2, lastVisit = 0\<rparr>)
      = Inr \<lparr>xp = 95, level = 1, streak = 2, lastVisit = 0\<rparr>
   \<and> (1::int) = \<lfloor>of_int 95 / (100::real)\<rfloor> + 1
   \<and> list_all positiveAmount [AddExperience 250 0, RecomputeStreak 86400000, AddExperience 10 86400300]
   \<and> (\<exists>d'. addXP 10 utc 0 (Stored \<lparr>xp = 95, level = 1, streak = 2, lastVisit = 0\<rparr>) = Inr (Stored d')
         \<and> xp d' = 105 \<and> level d' = 2)
   \<and> (\<exists>d'. updateStreak utc 0 (Stored \<lparr>xp = 95, level = 1, streak = 2, lastVisit = 0\<rparr>) = Inr (Stored d')
         \<and> xp d' = 95 \<and> level d' = 1)
   \<and> getLevel 100 = 2
   \<and> (\<exists>c' d'. mutate utc [AddExperience 250 0, RecomputeStreak 86400000, AddExperience 10 86400300]
                  Missing = Inr c'
         \<and> Gamification_getData utc 0 c' = Inr d' \<and> xp d' = 260 \<and> level d' = 3)"
proof -
  let ?d = "\<lparr>xp = 95, level = 1, streak = 2, lastVisit = 0\<rparr>"
  have h1: "Gamification_getData utc 0 (Stored ?d) = Inr ?d" by (simp add: Gamification_getData_def)
  have h2: "level ?d = \<lfloor>of_int (xp ?d) / (100::real)\<rfloor> + 1" by simp
  have h3: "(0::int) < 10" by simp
  have m: "\<exists>c'. mutate utc [AddExperience 250 0, RecomputeStreak 86400000, AddExperience 10 86400300]
              Missing = Inr (Stored c') \<and> xp c' = 260"
    by (simp add: game_defs getLevel_def Let_def)
  from level_invariant_preserved [OF h1 h2 h3, where e = 100
      and ms = "[AddExperience 250 0, RecomputeStreak 86400000, AddExperience 10 86400300]"]
  show ?thesis using h1 m by (auto simp: Gamification_getData_def)
qed

section \<open>Accuracy\<close>

lemma trackSign_counts:
  assumes "Analytics_getData t0 c = Inr d"
  shows "\<exists>d'. trackSign b tz now c = Inr (Stored d')
           \<and> totalSigns d' = totalSigns d + 1
           \<and> correctSigns d' = correctSigns d + (if b then 1 else 0)"
  using assms by (auto simp: analytics_defs Let_def split: cell.splits)

lemma trackSigns_counts:
  assumes "Analytics_getData t0 c = Inr d"
  shows "\<exists>c' d'. trackSigns tz evs c = Inr c' \<and> Analytics_getData t1 c' = Inr d'
           \<and> totalSigns d' = totalSigns d + int (length evs)
           \<and> correctSigns d' = correctSigns d + int (length (filter snd evs))"
  using assms
proof (induction evs arbitrary: c d t0)
  case Nil
  then show ?case by (auto simp: Analytics_getData_def split: cell.splits)
next
  case (Cons ev evs)
  obtain now b where ev: "ev = (now, b)" by (cases ev)
  from trackSign_counts [OF Cons.prems, of b tz now]
  obtain d1 where d1: "trackSign b tz now c = Inr (Stored d1)"
    "totalSigns d1 = totalSigns d + 1"
    "correctSigns d1 = correctSigns d + (if b then 1 else 0)" by blast
  have "Analytics_getData t0 (Stored d1) = Inr d1" by (simp add: Analytics_getData_def)
  from Cons.IH [OF this]
  obtain c' d' where r: "trackSigns tz evs (Stored d1) = Inr c'" "Analytics_getData t1 c' = Inr d'"
    "totalSigns d' = totalSigns d1 + int (length evs)"
    "correctSigns d' = correctSigns d1 + int (length (filter snd evs))" by blast
  show ?case using d1 r by (simp add: ev)
qed

lemma percent_range:
  assumes "0 \<le> k" "k \<le> n" "n \<noteq> 0"
  shows "0 \<le> Math_round (fl (fl (of_int k / of_int n) * 100))"
    and "Math_round (fl (fl (of_int k / of_int n) * 100)) \<le> 100"
    and "\<bar>Math_round (fl (fl (of_int k / of_int n) * 100))
           - round ((of_int k / of_int n) * (100::real))\<bar> \<le> 1"
proof -
  define r where "r = real_of_int k / real_of_int n"
  define q where "q = fl r"
  define p where "p = fl (q * 100)"
  have n: "0 < n" using assms by simp
  have r0: "0 \<le> r" using assms n by (simp add: r_def)
  have "real_of_int k \<le> real_of_int n" using assms(2) by simp
  then have r1: "r \<le> 1" using n by (simp add: r_def pos_divide_le_eq)
  have q0: "0 \<le> q" unfolding q_def by (rule fl_nonneg [OF r0])
  have q1: "q \<le> 1"
  proof (cases "r = 0")
    case True then show ?thesis by (simp add: q_def fl_def)
  next
    case False
    with r0 have "0 < r" by simp
    moreover have "r \<le> 2 powi 0" using r1 by simp
    ultimately have "fl r \<le> 2 powi 0" by (rule fl_le_pow2)
    then show ?thesis by (simp add: q_def)
  qed
  have qerr: "\<bar>q - r\<bar> \<le> 1 / 2 ^ 53"
  proof (cases "r = 0")
    case True then show ?thesis by (simp add: q_def fl_def)
  next
    case False
    with r0 have rp: "0 < r" by simp
    have "r / 2 ^ 53 \<le> 1 / 2 ^ 53" using r1 by (simp add: divide_right_mono)
    with fl_err [OF rp] show ?thesis unfolding q_def by linarith
  qed
  have x0: "0 \<le> q * 100" "q * 100 \<le> 100" using q0 q1 by simp_all
  have p0: "0 \<le> p" unfolding p_def by (rule fl_nonneg [OF x0(1)])
  have p1: "p \<le> 100" unfolding p_def by (rule fl_le_100 [OF x0])
  have perr: "\<bar>p - q * 100\<bar> \<le> 100 / 2 ^ 53"
  proof (cases "q * 100 = 0")
    case True then show ?thesis by (simp add: p_def fl_def)
  next
    case False
    with x0 have xp: "0 < q * 100" by simp
    have "q * 100 / 2 ^ 53 \<le> 100 / 2 ^ 53" using x0(2) by (simp add: divide_right_mono)
    with fl_err [OF xp] show ?thesis unfolding p_def by linarith
  qed
  have close: "\<bar>p - r * 100\<bar> < 1"
  proof -
    define u where "u = (1::real) / 2 ^ 53"
    have u: "u < 1 / 400" by (simp add: u_def)
    have a: "\<bar>q - r\<bar> \<le> u" using qerr by (simp add: u_def)
    have b: "\<bar>p - q * 100\<bar> \<le> 100 * u" using perr by (simp add: u_def)
    from a b u show ?thesis by linarith
  qed
  have fold: "fl (fl (of_int k / of_int n) * 100) = p"
    by (simp only: p_def q_def r_def)
  have "0 \<le> p + 1 / 2" using p0 by simp
  then have lo: "0 \<le> Math_round p" unfolding Math_round_def by (simp only: zero_le_floor)
  have "p + 1 / 2 < of_int 101" using p1 by simp
  then have "\<lfloor>p + 1 / 2\<rfloor> < 101" by (simp only: floor_less_iff)
  then have hi: "Math_round p \<le> 100" unfolding Math_round_def by simp
  have cl: "\<bar>Math_round p - round (r * 100)\<bar> \<le> 1" by (rule Math_round_close [OF close])
  show "0 \<le> Math_round (fl (fl (of_int k / of_int n) * 100))"
    unfolding fold by (rule lo)
  show "Math_round (fl (fl (of_int k / of_int n) * 100)) \<le> 100"
    unfolding fold by (rule hi)
  show "\<bar>Math_round (fl (fl (of_int k / of_int n) * 100))
           - round ((of_int k / of_int n) * (100::real))\<bar> \<le> 1"
    unfolding fold using cl by (simp only: r_def)
qed




section \<open>The seven-day series\<close>

text \<open>
  The series has seven entries, whatever is asked for: with 5 signs on the day before the
  reference day and nothing else, it is \<open>[0, 0, 0, 0, 0, 5, 0]\<close>, not \<open>[0, 5, 0]\<close>.
\<close>

theorem seven_day_window_counterexample:
  "getLast7Days utc 1792971000000
     (Stored \<lparr>totalSigns = 5, correctSigns = 5, practiceTime = 0,
              dailyProgress = [20750 \<mapsto> 5], sessionStart = 0\<rparr>)
     = Inr \<lparr>days = [0, 0, 0, 0, 0, 5, 0],
            labels = [''Mon'', ''Tue'', ''Wed'', ''Thu'', ''Fri'', ''Sat'', ''Sun'']\<rparr>
   \<and> toDateString utc 1792971000000 = 20751
   \<and> [0, 0, 0, 0, 0, 5, 0] \<noteq> [0, 5, 0 :: int]"
  by (simp add: getLast7Days_def Analytics_getData_def countOn_def weekdayShort_def
      toDateString_def msPerDay_def utc_def)

text \<open>
  C9, as the code has it: the series is that of the last 7 days (the length is fixed). For
  each offset \<open>i\<close> from 6 down to 0 it looks up the count stored for the reference date
  minus \<open>i\<close> days, a missing entry counting as 0, oldest first. With the single entry 5 on
  the day before the reference date the series is \<open>[0, 0, 0, 0, 0, 5, 0]\<close>, and with
  nothing persisted it is all zeros. This is stated for a clock at which the instant \<open>i\<close>
  times 24 hours back lies \<open>i\<close> calendar days back, for each of the seven offsets: the dates
  are computed from such instants, as the date of yesterday is in the streak.
\<close>

theorem last7Days_series:
  assumes "list_all (\<lambda>i. toDateString tz (now - i * 86400000) = toDateString tz now - i)
             [0, 1, 2, 3, 4, 5, 6]"
  shows "(\<exists>s. getLast7Days tz now (Stored d) = Inr s
          \<and> days s = map (\<lambda>i. countOn d (toDateString tz now - i)) [6, 5, 4, 3, 2, 1, 0]
          \<and> length (days s) = 7 \<and> length (labels s) = 7)
       \<and> (\<exists>s. getLast7Days tz now
                (Stored (d\<lparr>dailyProgress := [toDateString tz now - 1 \<mapsto> 5]\<rparr>)) = Inr s
          \<and> days s = [0, 0, 0, 0, 0, 5, 0])
       \<and> (\<exists>s. getLast7Days tz now Missing = Inr s \<and> days s = [0, 0, 0, 0, 0, 0, 0])"
  using assms by (simp add: getLast7Days_def Analytics_getData_def countOn_def)

theorem last7Days_series_witness:
  "list_all (\<lambda>i. toDateString utc (1792971000000 - i * 86400000)
                  = toDateString utc 1792971000000 - i) [0, 1, 2, 3, 4, 5, 6]
   \<and> (\<exists>s. getLast7Days utc 1792971000000
              (Stored \<lparr>totalSigns = 5, correctSigns = 5, practiceTime = 0,
                       dailyProgress = [20750 \<mapsto> 5], sessionStart = 0\<rparr>) = Inr s
          \<and> days s = [0, 0, 0, 0, 0, 5, 0] \<and> length (labels s) = 7)"
proof -
  have l: "list_all (\<lambda>i. toDateString utc (1792971000000 - i * 86400000)
                  = toDateString utc 1792971000000 - i) [0, 1, 2, 3, 4, 5, 6]"
    by (simp add: toDateString_def msPerDay_def utc_def)
  have t: "toDateString utc 1792971000000 = 20751"
    by (simp add: toDateString_def msPerDay_def utc_def)
  from last7Days_series [OF l, of "\<lparr>totalSigns = 5, correctSigns = 5, practiceTime = 0,
                       dailyProgress = [20750 \<mapsto> 5], sessionStart = 0\<rparr>"]
  have "\<exists>s. getLast7Days utc 1792971000000
              (Stored \<lparr>totalSigns = 5, correctSigns = 5, practiceTime = 0,
                       dailyProgress = [20750 \<mapsto> 5], sessionStart = 0\<rparr>) = Inr s
          \<and> days s = [0, 0, 0, 0, 0, 5, 0] \<and> length (labels s) = 7"
    by (auto simp: t)
  with l show ?thesis by blast
qed

section \<open>The detection loop\<close>

text \<open>
  The doubles of some confidences and their percentages; the last one is the double just
  below 0.795, whose product with 100 is the double 79.5.
\<close>

lemmas world_defs = detectionTick_def onCorrectDetection_def addToTranscript_def
  saveToDatabase_def clearTranscript_def switchMode_def startSignDetection_def
  stopSignDetection_def

lemma conf_090: "0.75 \<le> fl 0.9" "Math_round (fl (fl 0.9 * 100)) = 90"
  by (simp_all add: dbl_eval)

lemma conf_081: "0.75 \<le> fl 0.81" "Math_round (fl (fl 0.81 * 100)) = 81"
  by (simp_all add: dbl_eval)

lemma conf_0796: "0.75 \<le> fl 0.796" "Math_round (fl (fl 0.796 * 100)) = 80" "fl 0.796 < 0.80"
  by (simp_all add: dbl_eval)

lemma conf_076: "0.75 \<le> fl 0.76" "Math_round (fl (fl 0.76 * 100)) = 76"
  by (simp_all add: dbl_eval)

lemma conf_below: "Math_round (fl (7160723407519088 / 2 ^ 53 * 100)) = 80"
  "(7160723407519088 / 2 ^ 53 :: real) < 0.795" "(0.75::real) \<le> 7160723407519088 / 2 ^ 53"
  by (simp_all add: dbl_eval)

lemma addXP_readable:
  assumes "readable c"
  shows "\<exists>g. addXP amount tz now c = Inr (Stored g)"
  using assms by (cases c) (simp_all add: readable_def game_defs Let_def)

lemma trackSign_readable:
  assumes "readable c"
  shows "\<exists>a. trackSign b tz now c = Inr (Stored a)"
  using assms by (cases c) (simp_all add: readable_def analytics_defs Let_def)

lemma onCorrectDetection_readable:
  assumes "readable (game_store w)" "readable (analytics_store w)"
  shows "\<exists>g a. addXP 10 tz now (game_store w) = Inr (Stored g)
           \<and> trackSign True tz now (analytics_store w) = Inr (Stored a)
           \<and> onCorrectDetection tz now w
               = (w\<lparr>game_store := Stored g, analytics_store := Stored a\<rparr>, None)"
proof -
  from addXP_readable [OF assms(1)] obtain g where g: "addXP 10 tz now (game_store w) = Inr (Stored g)"
    by blast
  from trackSign_readable [OF assms(2)] obtain a
    where a: "trackSign True tz now (analytics_store w) = Inr (Stored a)" by blast
  show ?thesis using g a by (simp add: onCorrectDetection_def)
qed

lemma hd_addToTranscript:
  "hd (transcriptList (addToTranscript hasP sg conf now w)) = Entry sg conf now"
proof -
  have "hd (butlast (x # xs)) = x" if "20 < length (x # xs)" for x :: node and xs
    using that by (cases xs) simp_all
  then show ?thesis by (simp add: addToTranscript_def saveToDatabase_def Let_def)
qed

lemma addToTranscript_fields:
  "game_store (addToTranscript hasP sg conf now w) = game_store w"
  "analytics_store (addToTranscript hasP sg conf now w) = analytics_store w"
  "transcriptSigns (addToTranscript hasP sg conf now w) = transcriptSigns w"
  "posted (addToTranscript hasP sg conf now w) = posted w @ [(sg, fl (of_int conf / 100))]"
  "transcriptList (addToTranscript hasP sg conf now (w\<lparr>shown := v\<rparr>))
     = transcriptList (addToTranscript hasP sg conf now w)"
  by (simp_all add: addToTranscript_def saveToDatabase_def Let_def)

lemma tick_skips:
  assumes "\<not> (sg \<noteq> [] \<and> 0.75 \<le> c \<and> 80 \<le> Math_round (fl (c * 100)) \<and> sg \<notin> transcriptSigns w)"
  shows "untouched w (detectionTick hasP tz now (Latest (Some sg) (Some c)) w)"
  using assms by (auto simp: detectionTick_def untouched_def Let_def)

lemma tick_commit_eq:
  assumes "sg \<noteq> []" "readable (game_store w)" "readable (analytics_store w)"
    and "0.75 \<le> c" "80 \<le> Math_round (fl (c * 100))" "sg \<notin> transcriptSigns w"
  shows "\<exists>g a. addXP 10 tz now (game_store w) = Inr (Stored g)
           \<and> trackSign True tz now (analytics_store w) = Inr (Stored a)
           \<and> detectionTick hasP tz now (Latest (Some sg) (Some c)) w
               = (addToTranscript hasP sg (Math_round (fl (c * 100))) now
                    (w\<lparr>shown := Some (sg, Math_round (fl (c * 100)))\<rparr>))
                   \<lparr>game_store := Stored g, analytics_store := Stored a,
                    transcriptSigns := insert sg (transcriptSigns w),
                    lastAddedSign := Some sg, lastAddedTime := now\<rparr>"
proof -
  define conf where "conf = Math_round (fl (c * 100))"
  define w2 where "w2 = addToTranscript hasP sg conf now (w\<lparr>shown := Some (sg, conf)\<rparr>)"
  have st: "game_store w2 = game_store w" "analytics_store w2 = analytics_store w"
    "transcriptSigns w2 = transcriptSigns w"
    by (simp_all add: w2_def addToTranscript_fields)
  have rd: "readable (game_store w2)" "readable (analytics_store w2)"
    using assms(2,3) st by simp_all
  from onCorrectDetection_readable [OF rd, of tz now]
  obtain g a where ga: "addXP 10 tz now (game_store w2) = Inr (Stored g)"
    "trackSign True tz now (analytics_store w2) = Inr (Stored a)"
    "onCorrectDetection tz now w2 = (w2\<lparr>game_store := Stored g, analytics_store := Stored a\<rparr>, None)"
    by blast
  have "detectionTick hasP tz now (Latest (Some sg) (Some c)) w
      = w2\<lparr>game_store := Stored g, analytics_store := Stored a,
             transcriptSigns := insert sg (transcriptSigns w),
             lastAddedSign := Some sg, lastAddedTime := now\<rparr>"
    using assms(1,4,5,6) ga(3) st(3)
    by (simp add: detectionTick_def Let_def flip: conf_def w2_def)
  with ga(1,2) st show ?thesis unfolding w2_def conf_def by auto
qed

lemma tick_commits:
  assumes "sg \<noteq> []" "readable (game_store w)" "readable (analytics_store w)"
    and "0.75 \<le> c" "80 \<le> Math_round (fl (c * 100))" "sg \<notin> transcriptSigns w"
  shows "commitOf hasP tz now sg (Math_round (fl (c * 100))) w
           (detectionTick hasP tz now (Latest (Some sg) (Some c)) w)"
proof -
  define conf where "conf = Math_round (fl (c * 100))"
  from tick_commit_eq [OF assms, where tz = tz and now = now and hasP = hasP]
  obtain g a where ga: "addXP 10 tz now (game_store w) = Inr (Stored g)"
    "trackSign True tz now (analytics_store w) = Inr (Stored a)"
    and tick: "detectionTick hasP tz now (Latest (Some sg) (Some c)) w
      = (addToTranscript hasP sg conf now (w\<lparr>shown := Some (sg, conf)\<rparr>))
          \<lparr>game_store := Stored g, analytics_store := Stored a,
           transcriptSigns := insert sg (transcriptSigns w),
           lastAddedSign := Some sg, lastAddedTime := now\<rparr>"
    unfolding conf_def by blast
  show ?thesis
    unfolding commitOf_def tick conf_def [symmetric]
    using ga hd_addToTranscript [of hasP sg conf now "w\<lparr>shown := Some (sg, conf)\<rparr>"]
    by (simp add: addToTranscript_fields)
qed

lemma untouched_not_commit: "untouched w w' \<Longrightarrow> \<not> commitOf hasP tz now sg conf w w'"
  by (simp add: untouched_def commitOf_def)

text \<open>
  Two callbacks where the commit does not follow the rule "confidence at least 0.80 and
  sign not yet taken". The test is made on the rounded percentage: a confidence of 0.796
  rounds to 80 percent and is committed. And with a progress record that does not parse,
  a first-seen sign at confidence 0.9 gets its transcript entry, but \<^verbatim>\<open>addXP\<close> raises, the
  callback ends there, and neither the tracking nor the addition to the set happens.
\<close>

theorem commit_gate_counterexample:
  "commitOf plainSigns utc 0 ''A'' 80 freshWorld
     (detectionTick plainSigns utc 0 (Latest (Some ''A'') (Some (fl 0.796))) freshWorld)
   \<and> fl 0.796 < 0.80
   \<and> \<not> commitOf plainSigns utc 0 ''A'' 90 (freshWorld\<lparr>game_store := Corrupt\<rparr>)
       (detectionTick plainSigns utc 0 (Latest (Some ''A'') (Some (fl 0.9)))
          (freshWorld\<lparr>game_store := Corrupt\<rparr>))
   \<and> 0.80 \<le> fl 0.9"
proof -
  have rd: "readable (game_store freshWorld)" "readable (analytics_store freshWorld)"
    "''A'' \<notin> transcriptSigns freshWorld" "''A'' \<noteq> []"
    by (simp_all add: readable_def freshWorld_def)
  have "80 \<le> Math_round (fl (fl 0.796 * 100))" using conf_0796(2) by simp
  from tick_commits [OF rd(4) rd(1,2) conf_0796(1) this rd(3),
      where tz = utc and now = 0 and hasP = plainSigns]
  have a: "commitOf plainSigns utc 0 ''A'' 80 freshWorld
     (detectionTick plainSigns utc 0 (Latest (Some ''A'') (Some (fl 0.796))) freshWorld)"
    using conf_0796(2) by simp
  have b: "\<not> commitOf plainSigns utc 0 ''A'' 90 (freshWorld\<lparr>game_store := Corrupt\<rparr>)
       (detectionTick plainSigns utc 0 (Latest (Some ''A'') (Some (fl 0.9)))
          (freshWorld\<lparr>game_store := Corrupt\<rparr>))"
    by (simp add: commitOf_def game_defs freshWorld_def)
  have c: "0.80 \<le> fl 0.9" by (simp add: dbl_eval)
  from a b c conf_0796(3) show ?thesis by blast
qed

text \<open>
  C1, as the code has it: for a timer callback whose answer carries a non-empty sign and a
  confidence, with both persisted records readable, the detection is committed (entry on
  top of the transcript, request sent, sign added to the set of signs taken, \<^verbatim>\<open>addXP(10)\<close>
  and \<^verbatim>\<open>trackSign(true)\<close> done) if and only if the confidence is at least 0.75, its
  percentage \<^verbatim>\<open>Math.round(conf * 100)\<close>, computed in doubles, is at least 80, and the sign
  is not yet in the set; otherwise transcript, set, requests and both records are as
  before. The two tests on the confidence hold exactly when its exact product with 100
  is at least \<open>79.5 - 2^-47\<close>: the least double that passes is 0.7949999999999999. So a
  first-seen sign at 0.81 is committed, and nothing below that double is.
\<close>

theorem commit_gate:
  assumes "sg \<noteq> []" "readable (game_store w)" "readable (analytics_store w)"
  shows "(commitOf hasP tz now sg (Math_round (fl (c * 100))) w
            (detectionTick hasP tz now (Latest (Some sg) (Some c)) w)
            \<longleftrightarrow> 0.75 \<le> c \<and> 80 \<le> Math_round (fl (c * 100)) \<and> sg \<notin> transcriptSigns w)
       \<and> (\<not> (0.75 \<le> c \<and> 80 \<le> Math_round (fl (c * 100)) \<and> sg \<notin> transcriptSigns w)
            \<longrightarrow> untouched w (detectionTick hasP tz now (Latest (Some sg) (Some c)) w))
       \<and> (0.75 \<le> c \<and> 80 \<le> Math_round (fl (c * 100))) = (159 / 2 - 1 / 2 ^ 47 \<le> c * 100)"
  using tick_commits [OF assms, where c = c and tz = tz and now = now and hasP = hasP]
    tick_skips [where sg = sg and c = c and w = w and hasP = hasP and tz = tz and now = now]
    untouched_not_commit [where w = w
      and w' = "detectionTick hasP tz now (Latest (Some sg) (Some c)) w"
      and hasP = hasP and tz = tz and now = now and sg = sg and conf = "Math_round (fl (c * 100))"]
    percent_threshold [of c]
  by blast

theorem commit_gate_witness:
  "''A'' \<noteq> [] \<and> readable (game_store freshWorld) \<and> readable (analytics_store freshWorld)
   \<and> ''A'' \<notin> transcriptSigns freshWorld
   \<and> commitOf plainSigns utc 0 ''A'' 81 freshWorld
        (detectionTick plainSigns utc 0 (Latest (Some ''A'') (Some (fl 0.81))) freshWorld)
   \<and> untouched freshWorld
        (detectionTick plainSigns utc 0 (Latest (Some ''A'') (Some (fl 0.76))) freshWorld)
   \<and> commitOf plainSigns utc 0 ''A'' 80 freshWorld
        (detectionTick plainSigns utc 0
           (Latest (Some ''A'') (Some (7160723407519088 / 2 ^ 53))) freshWorld)"
proof -
  have rd: "''A'' \<noteq> []" "readable (game_store freshWorld)" "readable (analytics_store freshWorld)"
    "''A'' \<notin> transcriptSigns freshWorld"
    by (simp_all add: readable_def freshWorld_def)
  from commit_gate [OF rd(1-3), where c = "fl 0.81" and tz = utc and now = 0 and hasP = plainSigns]
    commit_gate [OF rd(1-3), where c = "fl 0.76" and tz = utc and now = 0 and hasP = plainSigns]
    commit_gate [OF rd(1-3), where c = "7160723407519088 / 2 ^ 53" and tz = utc and now = 0
      and hasP = plainSigns]
  show ?thesis using rd conf_081 conf_076 conf_below by simp
qed

text \<open>
  A callback keeps the records readable and the set of signs growing, and sends at most
  one request for a sign, none for a sign already in the set; a mode switch that does not
  restart the detection changes none of these.
\<close>

lemma tick_step:
  assumes "readable (game_store w)" "readable (analytics_store w)"
  shows "readable (game_store (detectionTick hasP tz now r w))
       \<and> readable (analytics_store (detectionTick hasP tz now r w))
       \<and> transcriptSigns w \<subseteq> transcriptSigns (detectionTick hasP tz now r w)
       \<and> postsOf sg w \<le> postsOf sg (detectionTick hasP tz now r w)
       \<and> postsOf sg (detectionTick hasP tz now r w) \<le> postsOf sg w + 1
       \<and> (postsOf sg w < postsOf sg (detectionTick hasP tz now r w)
            \<longrightarrow> sg \<notin> transcriptSigns w \<and> sg \<in> transcriptSigns (detectionTick hasP tz now r w))"
proof (cases r)
  case FetchFailed
  then show ?thesis using assms by (simp add: detectionTick_def)
next
  case (Latest so co)
  show ?thesis
  proof (cases "\<exists>s c. so = Some s \<and> co = Some c \<and> s \<noteq> [] \<and> 0.75 \<le> c
                  \<and> 80 \<le> Math_round (fl (c * 100)) \<and> s \<notin> transcriptSigns w")
    case True
    then obtain s c where sc: "so = Some s" "co = Some c" "s \<noteq> []" "0.75 \<le> c"
      "80 \<le> Math_round (fl (c * 100))" "s \<notin> transcriptSigns w" by blast
    from tick_commit_eq [OF sc(3) assms sc(4,5,6), where tz = tz and now = now and hasP = hasP]
    obtain g a where "detectionTick hasP tz now (Latest (Some s) (Some c)) w
      = (addToTranscript hasP s (Math_round (fl (c * 100))) now
           (w\<lparr>shown := Some (s, Math_round (fl (c * 100)))\<rparr>))
          \<lparr>game_store := Stored g, analytics_store := Stored a,
           transcriptSigns := insert s (transcriptSigns w),
           lastAddedSign := Some s, lastAddedTime := now\<rparr>" by blast
    then show ?thesis
      using sc(6) by (auto simp: Latest sc(1,2) readable_def postsOf_def addToTranscript_fields)
  next
    case False
    then have "untouched w (detectionTick hasP tz now r w)"
      by (auto simp: Latest detectionTick_def untouched_def Let_def split: option.splits)
    then show ?thesis using assms by (auto simp: untouched_def postsOf_def)
  qed
qed

lemma switch_step:
  assumes "\<not> emptiesSet (SwitchMode m) w"
  shows "game_store (switchMode m w) = game_store w"
    and "analytics_store (switchMode m w) = analytics_store w"
    and "transcriptSigns (switchMode m w) = transcriptSigns w"
    and "postsOf sg (switchMode m w) = postsOf sg w"
  using assms
  by (cases m; simp add: switchMode_def startSignDetection_def stopSignDetection_def
      postsOf_def Let_def)+

lemma run_posts_mono:
  assumes "readable (game_store w)" "readable (analytics_store w)" "noReset hasP tz evs w"
  shows "postsOf sg w \<le> postsOf sg (run hasP tz evs w)
       \<and> postsOf sg (run hasP tz evs w) \<le> postsOf sg w + (if sg \<in> transcriptSigns w then 0 else 1)"
  using assms
proof (induction evs arbitrary: w)
  case Nil
  then show ?case by simp
next
  case (Cons ev evs)
  have keep: "\<not> emptiesSet ev w" and nc: "noReset hasP tz evs (step hasP tz ev w)"
    using Cons.prems(3) by simp_all
  show ?case
  proof (cases ev)
    case (Tick now r)
    define w1 where "w1 = detectionTick hasP tz now r w"
    note step = tick_step [OF Cons.prems(1,2), of hasP tz now r sg, folded w1_def]
    from step have rd: "readable (game_store w1)" "readable (analytics_store w1)" by simp_all
    have nc1: "noReset hasP tz evs w1" using nc by (simp add: Tick w1_def)
    note ih = Cons.IH [OF rd nc1]
    have r: "run hasP tz (ev # evs) w = run hasP tz evs w1" by (simp add: Tick w1_def)
    show ?thesis
    proof (cases "postsOf sg w < postsOf sg w1")
      case True
      with step have "sg \<notin> transcriptSigns w" "sg \<in> transcriptSigns w1"
        "postsOf sg w1 = postsOf sg w + 1" by auto
      with ih show ?thesis unfolding r by simp
    next
      case False
      with step have eq: "postsOf sg w1 = postsOf sg w" by auto
      from step have "sg \<in> transcriptSigns w \<Longrightarrow> sg \<in> transcriptSigns w1" by auto
      with ih eq show ?thesis unfolding r by (auto split: if_splits)
    qed
  next
    case Clear
    with keep show ?thesis by simp
  next
    case (SwitchMode m)
    define w1 where "w1 = switchMode m w"
    have k: "\<not> emptiesSet (SwitchMode m) w" using keep unfolding SwitchMode .
    note sw = switch_step [OF k, folded w1_def]
    have rd: "readable (game_store w1)" "readable (analytics_store w1)"
      using Cons.prems(1,2) by (simp_all add: sw)
    have nc1: "noReset hasP tz evs w1" using nc by (simp add: SwitchMode w1_def)
    have r: "run hasP tz (ev # evs) w = run hasP tz evs w1" by (simp add: SwitchMode w1_def)
    from Cons.IH [OF rd nc1] show ?thesis unfolding r by (simp add: sw)
  qed
qed

section \<open>One commit per sign\<close>

lemma entries_clear: "entries (clearTranscript w) = []"
  by (simp add: entries_def clearTranscript_def)

lemma entries_after_clear:
  assumes "transcriptList w' = transcriptList (addToTranscript hasP sg conf now (clearTranscript w))"
  shows "entries w' = [Entry sg conf now]"
  using assms
  by (simp add: entries_def clearTranscript_def addToTranscript_def saveToDatabase_def Let_def)

lemma tick_repeat:
  assumes "sg \<noteq> []" "readable (game_store w)" "readable (analytics_store w)"
    and "0.75 \<le> c" "80 \<le> Math_round (fl (c * 100))" "sg \<notin> transcriptSigns w"
  shows "detectionTick hasP tz t2 (Latest (Some sg) (Some c))
           (detectionTick hasP tz t1 (Latest (Some sg) (Some c)) w)
         = detectionTick hasP tz t1 (Latest (Some sg) (Some c)) w"
proof -
  from tick_commit_eq [OF assms, where tz = tz and now = t1 and hasP = hasP]
  obtain g a where tick: "detectionTick hasP tz t1 (Latest (Some sg) (Some c)) w
      = (addToTranscript hasP sg (Math_round (fl (c * 100))) t1
           (w\<lparr>shown := Some (sg, Math_round (fl (c * 100)))\<rparr>))
          \<lparr>game_store := Stored g, analytics_store := Stored a,
           transcriptSigns := insert sg (transcriptSigns w),
           lastAddedSign := Some sg, lastAddedTime := t1\<rparr>"
    by blast
  show ?thesis
    unfolding tick using assms(1,4,5)
    by (simp add: detectionTick_def Let_def addToTranscript_def saveToDatabase_def)
qed

text \<open>
  Two sessions in which a sign is committed twice with no press of the clear button. With
  a progress record that does not parse, two consecutive callbacks reporting the same
  sign at confidence 0.9 put two entries into the transcript: the exception of \<^verbatim>\<open>addXP\<close>
  ends each callback before the sign is added to the set. And with readable records, a
  switch to speech mode and back to sign mode starts the detection anew with an empty
  set, while the transcript stays: the next callback commits the same sign again.
\<close>

theorem dedup_counterexample:
  "entries (run plainSigns utc [Tick 0 (Latest (Some ''A'') (Some (fl 0.9))),
                               Tick 300 (Latest (Some ''A'') (Some (fl 0.9)))]
              (freshWorld\<lparr>game_store := Corrupt\<rparr>))
     = [Entry ''A'' 90 300, Entry ''A'' 90 0]
   \<and> game_store (run plainSigns utc [Tick 0 (Latest (Some ''A'') (Some (fl 0.9))),
                               Tick 300 (Latest (Some ''A'') (Some (fl 0.9)))]
              (freshWorld\<lparr>game_store := Corrupt\<rparr>)) = Corrupt
   \<and> entries (run plainSigns utc [Tick 0 (Latest (Some ''A'') (Some (fl 0.9))),
                               SwitchMode SpeechMode, SwitchMode SignMode,
                               Tick 600 (Latest (Some ''A'') (Some (fl 0.9)))] freshWorld)
     = [Entry ''A'' 90 600, Entry ''A'' 90 0]
   \<and> postsOf ''A'' (run plainSigns utc [Tick 0 (Latest (Some ''A'') (Some (fl 0.9))),
                               SwitchMode SpeechMode, SwitchMode SignMode,
                               Tick 600 (Latest (Some ''A'') (Some (fl 0.9)))] freshWorld) = 2
   \<and> readable (game_store freshWorld) \<and> readable (analytics_store freshWorld)"
  using conf_090
  by (simp add: entries_def postsOf_def freshWorld_def world_defs game_defs analytics_defs
      Let_def plainSigns_def readable_def getLevel_def countOn_def)

text \<open>
  C7, as the code has it: in a session whose persisted records are readable, each sign is
  committed at most once between two emptyings of the set of signs, by a press of the
  clear button or by a restart of the detection (over any run of events none of which
  empties the set at most one request is sent for a sign, and none for a sign already in
  the set). Two consecutive callbacks reporting the same first-seen sign at confidence 0.9
  make one commit, with one \<^verbatim>\<open>addXP(10)\<close>, the second callback changing nothing;
  \<^verbatim>\<open>clearTranscript\<close> then empties the transcript and the set and leaves both persisted
  records alone, and the same sign at the same confidence is committed a second time, as
  the only entry.
\<close>

theorem dedup_between_clears:
  assumes "readable (game_store w)" "readable (analytics_store w)"
  shows "(noReset hasP tz evs w \<longrightarrow>
            postsOf sg (run hasP tz evs w) \<le> postsOf sg w + 1
            \<and> (sg \<in> transcriptSigns w \<longrightarrow> postsOf sg (run hasP tz evs w) = postsOf sg w))
       \<and> (lbl \<noteq> [] \<and> lbl \<notin> transcriptSigns w \<longrightarrow>
            commitOf hasP tz t1 lbl 90 w
              (run hasP tz [Tick t1 (Latest (Some lbl) (Some (fl 0.9)))] w)
            \<and> run hasP tz [Tick t1 (Latest (Some lbl) (Some (fl 0.9))),
                            Tick t2 (Latest (Some lbl) (Some (fl 0.9)))] w
                = run hasP tz [Tick t1 (Latest (Some lbl) (Some (fl 0.9)))] w
            \<and> entries (run hasP tz [Tick t1 (Latest (Some lbl) (Some (fl 0.9))),
                                Tick t2 (Latest (Some lbl) (Some (fl 0.9))), Clear] w) = []
            \<and> transcriptSigns (run hasP tz [Tick t1 (Latest (Some lbl) (Some (fl 0.9))),
                                Tick t2 (Latest (Some lbl) (Some (fl 0.9))), Clear] w) = {}
            \<and> game_store (run hasP tz [Tick t1 (Latest (Some lbl) (Some (fl 0.9))),
                                Tick t2 (Latest (Some lbl) (Some (fl 0.9))), Clear] w)
                = game_store (run hasP tz [Tick t1 (Latest (Some lbl) (Some (fl 0.9)))] w)
            \<and> analytics_store (run hasP tz [Tick t1 (Latest (Some lbl) (Some (fl 0.9))),
                                Tick t2 (Latest (Some lbl) (Some (fl 0.9))), Clear] w)
                = analytics_store (run hasP tz [Tick t1 (Latest (Some lbl) (Some (fl 0.9)))] w)
            \<and> commitOf hasP tz t3 lbl 90
                (run hasP tz [Tick t1 (Latest (Some lbl) (Some (fl 0.9))),
                         Tick t2 (Latest (Some lbl) (Some (fl 0.9))), Clear] w)
                (run hasP tz [Tick t1 (Latest (Some lbl) (Some (fl 0.9))),
                         Tick t2 (Latest (Some lbl) (Some (fl 0.9))), Clear,
                         Tick t3 (Latest (Some lbl) (Some (fl 0.9)))] w)
            \<and> entries (run hasP tz [Tick t1 (Latest (Some lbl) (Some (fl 0.9))),
                         Tick t2 (Latest (Some lbl) (Some (fl 0.9))), Clear,
                         Tick t3 (Latest (Some lbl) (Some (fl 0.9)))] w) = [Entry lbl 90 t3])"
proof -
  define r where "r = Latest (Some lbl) (Some (fl 0.9))"
  have general: "postsOf sg (run hasP tz evs w) \<le> postsOf sg w + 1
      \<and> (sg \<in> transcriptSigns w \<longrightarrow> postsOf sg (run hasP tz evs w) = postsOf sg w)"
    if "noReset hasP tz evs w"
    using run_posts_mono [OF assms that, of sg] by (auto split: if_splits)
  have scenario: "commitOf hasP tz t1 lbl 90 w (run hasP tz [Tick t1 r] w)
       \<and> run hasP tz [Tick t1 r, Tick t2 r] w = run hasP tz [Tick t1 r] w
       \<and> entries (run hasP tz [Tick t1 r, Tick t2 r, Clear] w) = []
       \<and> transcriptSigns (run hasP tz [Tick t1 r, Tick t2 r, Clear] w) = {}
       \<and> game_store (run hasP tz [Tick t1 r, Tick t2 r, Clear] w)
           = game_store (run hasP tz [Tick t1 r] w)
       \<and> analytics_store (run hasP tz [Tick t1 r, Tick t2 r, Clear] w)
           = analytics_store (run hasP tz [Tick t1 r] w)
       \<and> commitOf hasP tz t3 lbl 90 (run hasP tz [Tick t1 r, Tick t2 r, Clear] w)
           (run hasP tz [Tick t1 r, Tick t2 r, Clear, Tick t3 r] w)
       \<and> entries (run hasP tz [Tick t1 r, Tick t2 r, Clear, Tick t3 r] w) = [Entry lbl 90 t3]"
    if lbl: "lbl \<noteq> []" "lbl \<notin> transcriptSigns w"
  proof -
    have ge: "80 \<le> Math_round (fl (fl 0.9 * 100))" unfolding conf_090(2) by simp
    define w1 where "w1 = detectionTick hasP tz t1 r w"
    define w3 where "w3 = clearTranscript w1"
    define w4 where "w4 = detectionTick hasP tz t3 r w3"
    have c1: "commitOf hasP tz t1 lbl 90 w w1"
      using tick_commits [OF lbl(1) assms conf_090(1) ge lbl(2),
          where tz = tz and now = t1 and hasP = hasP]
      unfolding conf_090(2) w1_def r_def .
    have rep: "detectionTick hasP tz t2 r w1 = w1"
      unfolding w1_def r_def by (rule tick_repeat [OF lbl(1) assms conf_090(1) ge lbl(2)])
    from tick_step [OF assms, of hasP tz t1 r lbl]
    have rd1: "readable (game_store w1)" "readable (analytics_store w1)"
      by (simp_all add: w1_def)
    have rd3: "readable (game_store w3)" "readable (analytics_store w3)"
      using rd1 by (simp_all add: w3_def clearTranscript_def)
    have fresh: "lbl \<notin> transcriptSigns w3" by (simp add: w3_def clearTranscript_def)
    have c4: "commitOf hasP tz t3 lbl 90 w3 w4"
      using tick_commits [OF lbl(1) rd3 conf_090(1) ge fresh,
          where tz = tz and now = t3 and hasP = hasP]
      unfolding conf_090(2) w4_def r_def .
    then have "transcriptList w4 = transcriptList (addToTranscript hasP lbl 90 t3 w3)"
      by (simp add: commitOf_def)
    then have e4: "entries w4 = [Entry lbl 90 t3]"
      unfolding w3_def by (rule entries_after_clear)
    have runs: "run hasP tz [Tick t1 r] w = w1" "run hasP tz [Tick t1 r, Tick t2 r] w = w1"
      "run hasP tz [Tick t1 r, Tick t2 r, Clear] w = w3"
      "run hasP tz [Tick t1 r, Tick t2 r, Clear, Tick t3 r] w = w4"
      by (simp_all add: w1_def [symmetric] rep w3_def [symmetric] w4_def [symmetric])
    have cl: "entries w3 = []" "transcriptSigns w3 = {}" "game_store w3 = game_store w1"
      "analytics_store w3 = analytics_store w1"
      by (simp_all add: w3_def entries_clear) (simp_all add: clearTranscript_def)
    show ?thesis unfolding runs using c1 c4 e4 cl by simp
  qed
  from general scenario show ?thesis unfolding r_def by blast
qed

theorem dedup_between_clears_witness:
  "readable (game_store freshWorld) \<and> readable (analytics_store freshWorld)
   \<and> noReset plainSigns utc
        [Tick 0 (Latest (Some ''A'') (Some (fl 0.9))), SwitchMode SignMode, SwitchMode SpeechMode,
         Tick 300 (Latest (Some ''A'') (Some (fl 0.9)))] freshWorld
   \<and> ''A'' \<noteq> [] \<and> ''A'' \<notin> transcriptSigns freshWorld
   \<and> postsOf ''A'' (run plainSigns utc [Tick 0 (Latest (Some ''A'') (Some (fl 0.9))),
                            SwitchMode SignMode, SwitchMode SpeechMode,
                            Tick 300 (Latest (Some ''A'') (Some (fl 0.9)))] freshWorld)
        \<le> postsOf ''A'' freshWorld + 1
   \<and> commitOf plainSigns utc 0 ''A'' 90 freshWorld
        (run plainSigns utc [Tick 0 (Latest (Some ''A'') (Some (fl 0.9)))] freshWorld)
   \<and> run plainSigns utc [Tick 0 (Latest (Some ''A'') (Some (fl 0.9))),
                         Tick 300 (Latest (Some ''A'') (Some (fl 0.9)))] freshWorld
       = run plainSigns utc [Tick 0 (Latest (Some ''A'') (Some (fl 0.9)))] freshWorld
   \<and> entries (run plainSigns utc [Tick 0 (Latest (Some ''A'') (Some (fl 0.9))),
                       Tick 300 (Latest (Some ''A'') (Some (fl 0.9))), Clear,
                       Tick 600 (Latest (Some ''A'') (Some (fl 0.9)))] freshWorld)
       = [Entry ''A'' 90 600]"
proof -
  have h: "readable (game_store freshWorld)" "readable (analytics_store freshWorld)"
    by (simp_all add: readable_def freshWorld_def)
  have n: "noReset plainSigns utc
        [Tick 0 (Latest (Some ''A'') (Some (fl 0.9))), SwitchMode SignMode, SwitchMode SpeechMode,
         Tick 300 (Latest (Some ''A'') (Some (fl 0.9)))] freshWorld"
    using conf_090
    by (simp add: freshWorld_def world_defs game_defs analytics_defs Let_def plainSigns_def)
  have f: "''A'' \<noteq> []" "''A'' \<notin> transcriptSigns freshWorld"
    by (simp_all add: freshWorld_def)
  from dedup_between_clears [OF h, where lbl = "''A''" and sg = "''A''" and tz = utc
      and hasP = plainSigns and ?t1.0 = 0 and ?t2.0 = 300 and ?t3.0 = 600
      and evs = "[Tick 0 (Latest (Some ''A'') (Some (fl 0.9))), SwitchMode SignMode,
              SwitchMode SpeechMode, Tick 300 (Latest (Some ''A'') (Some (fl 0.9)))]"]
  show ?thesis using h n f by blast
qed

section \<open>Only correct signs from the detection loop\<close>

lemma trackSign_onlyCorrect:
  assumes "onlyCorrect c"
  shows "\<exists>a. trackSign True tz now c = Inr (Stored a) \<and> onlyCorrect (Stored a)"
  using assms by (cases c) (simp_all add: onlyCorrect_def analytics_defs Let_def)

lemma onCorrectDetection_analytics:
  "analytics_store (fst (onCorrectDetection tz now w)) = analytics_store w
   \<or> trackSign True tz now (analytics_store w)
        = Inr (analytics_store (fst (onCorrectDetection tz now w)))"
  by (auto simp: onCorrectDetection_def Let_def split: sum.splits)

lemma onCorrectDetection_onlyCorrect:
  assumes "onlyCorrect (analytics_store w)"
  shows "onlyCorrect (analytics_store (fst (onCorrectDetection tz now w)))"
  using onCorrectDetection_analytics [of tz now w] trackSign_onlyCorrect [OF assms, of tz now] assms
  by auto

lemma tick_onlyCorrect:
  assumes "onlyCorrect (analytics_store w)"
  shows "onlyCorrect (analytics_store (detectionTick hasP tz now r w))"
proof (cases r)
  case FetchFailed
  then show ?thesis using assms by (simp add: detectionTick_def)
next
  case (Latest so co)
  show ?thesis
  proof (cases "\<exists>s c. so = Some s \<and> co = Some c \<and> s \<noteq> [] \<and> 0.75 \<le> c
                  \<and> 80 \<le> Math_round (fl (c * 100)) \<and> s \<notin> transcriptSigns w")
    case True
    then obtain s c where sc: "so = Some s" "co = Some c" "s \<noteq> []" "0.75 \<le> c"
      "80 \<le> Math_round (fl (c * 100))" "s \<notin> transcriptSigns w" by blast
    define conf where "conf = Math_round (fl (c * 100))"
    define w2 where "w2 = addToTranscript hasP s conf now (w\<lparr>shown := Some (s, conf)\<rparr>)"
    have "onlyCorrect (analytics_store w2)"
      using assms by (simp add: w2_def addToTranscript_fields)
    then have oc: "onlyCorrect (analytics_store (fst (onCorrectDetection tz now w2)))"
      by (rule onCorrectDetection_onlyCorrect)
    obtain w3 res where r3: "onCorrectDetection tz now w2 = (w3, res)"
      by (cases "onCorrectDetection tz now w2")
    with oc have "onlyCorrect (analytics_store w3)" by simp
    then show ?thesis
      using sc r3 by (cases res) (simp_all add: Latest detectionTick_def Let_def
          flip: conf_def w2_def)
  next
    case False
    then have "analytics_store (detectionTick hasP tz now r w) = analytics_store w"
      by (auto simp: Latest detectionTick_def Let_def split: option.splits)
    with assms show ?thesis by simp
  qed
qed

lemma run_onlyCorrect:
  assumes "onlyCorrect (analytics_store w)"
  shows "onlyCorrect (analytics_store (run hasP tz evs w))"
  using assms
proof (induction evs arbitrary: w)
  case Nil
  then show ?case by simp
next
  case (Cons ev evs)
  show ?case
  proof (cases ev)
    case (Tick now r)
    with Cons.IH [OF tick_onlyCorrect [OF Cons.prems, of hasP tz now r]] show ?thesis by simp
  next
    case Clear
    have "onlyCorrect (analytics_store (clearTranscript w))"
      using Cons.prems by (simp add: clearTranscript_def)
    from Cons.IH [OF this] Clear show ?thesis by simp
  next
    case (SwitchMode m)
    have "onlyCorrect (analytics_store (switchMode m w))"
      using Cons.prems
      by (cases m) (simp_all add: switchMode_def startSignDetection_def stopSignDetection_def Let_def)
    from Cons.IH [OF this] SwitchMode show ?thesis by simp
  qed
qed

lemma onlyCorrect_accuracy:
  assumes "onlyCorrect c"
  shows "\<exists>a. Analytics_getData now c = Inr a \<and> correctSigns a = totalSigns a
           \<and> (0 < totalSigns a \<longrightarrow> getAccuracy now c = Inr 100)"
proof (cases c)
  case (Stored a)
  have "Math_round (fl (fl 1 * 100)) = 100" by (simp add: dbl_eval)
  with assms Stored show ?thesis
    by (auto simp: onlyCorrect_def getAccuracy_def Analytics_getData_def)
qed (use assms in \<open>simp_all add: onlyCorrect_def getAccuracy_def Analytics_getData_def\<close>)

text \<open>
  C10: a commit changes the analytics record only through \<^verbatim>\<open>trackSign(true)\<close>. So from the
  defaults (nothing persisted), after any session of timer callbacks, presses of the clear
  button and mode switches, the record loads, its correct signs equal its total signs,
  and the accuracy is 100 as soon as a sign has been tracked.
\<close>

theorem commits_track_correct_only:
  assumes "analytics_store w = Missing"
  shows "(analytics_store (fst (onCorrectDetection tz t v)) = analytics_store v
          \<or> trackSign True tz t (analytics_store v)
               = Inr (analytics_store (fst (onCorrectDetection tz t v))))
       \<and> (\<exists>a. Analytics_getData now (analytics_store (run hasP tz evs w)) = Inr a
              \<and> correctSigns a = totalSigns a
              \<and> (0 < totalSigns a \<longrightarrow>
                   getAccuracy now (analytics_store (run hasP tz evs w)) = Inr 100))"
proof -
  have "onlyCorrect (analytics_store w)" using assms by (simp add: onlyCorrect_def)
  then have "onlyCorrect (analytics_store (run hasP tz evs w))" by (rule run_onlyCorrect)
  from onlyCorrect_accuracy [OF this, of now] onCorrectDetection_analytics [of tz t v]
  show ?thesis by blast
qed

theorem commits_track_correct_only_witness:
  "analytics_store freshWorld = Missing
   \<and> (\<exists>a. Analytics_getData 900 (analytics_store
              (run plainSigns utc [Tick 0 (Latest (Some ''A'') (Some (fl 0.9))),
                        Tick 300 (Latest (Some ''B'') (Some (fl 0.81))),
                        Tick 600 (Latest (Some ''B'') (Some (fl 0.9)))] freshWorld)) = Inr a
          \<and> correctSigns a = 2 \<and> totalSigns a = 2)
   \<and> getAccuracy 900 (analytics_store
              (run plainSigns utc [Tick 0 (Latest (Some ''A'') (Some (fl 0.9))),
                        Tick 300 (Latest (Some ''B'') (Some (fl 0.81))),
                        Tick 600 (Latest (Some ''B'') (Some (fl 0.9)))] freshWorld)) = Inr 100"
proof -
  have h: "analytics_store freshWorld = Missing" by (simp add: freshWorld_def)
  define w where "w = run plainSigns utc [Tick 0 (Latest (Some ''A'') (Some (fl 0.9))),
                        Tick 300 (Latest (Some ''B'') (Some (fl 0.81))),
                        Tick 600 (Latest (Some ''B'') (Some (fl 0.9)))] freshWorld"
  have t: "\<exists>a. analytics_store w = Stored a \<and> totalSigns a = 2"
    unfolding w_def using conf_090 conf_081
    by (simp add: freshWorld_def world_defs game_defs analytics_defs Let_def plainSigns_def)
  from commits_track_correct_only [OF h, where tz = utc and t = 0 and v = freshWorld and now = 900
      and hasP = plainSigns
      and evs = "[Tick 0 (Latest (Some ''A'') (Some (fl 0.9))),
        Tick 300 (Latest (Some ''B'') (Some (fl 0.81))),
        Tick 600 (Latest (Some ''B'') (Some (fl 0.9)))]"]
  show ?thesis using h t unfolding w_def by (auto simp: Analytics_getData_def)
qed

end
